theory Spec2Isabelle
  imports Complex_Main "HOL-Library.Word" "HOL-Library.Signed_Division" "HOL-Library.Multiset"
begin

text \<open>
  A model of the caching benchmark: the workload generators (package \<open>workload\<close>),
  the engine that runs a workload against a caching strategy and aggregates the
  counters (package \<open>benchmark\<close>), the strategy that keeps a local cache coherent
  through published invalidations (package \<open>implementations\<close>), and the percentile
  of the final comparison (\<open>main\<close>). Libraries, clocks, schedulers and random sources
  are inputs of the functions that use them.
\<close>

section \<open>Go values shared by the packages\<close>

subsection \<open>Errors\<close>

text \<open>
  A Go \<open>error\<close> is a value. \<open>Canceled\<close> is the sentinel \<open>context.Canceled\<close>,
  \<open>ErrorString\<close> any error produced by a library (remote store, decoder), and
  \<open>Wrapped p e\<close> the error built by \<open>fmt.Errorf(p + "%w", e)\<close>. The Go value \<open>nil\<close> of
  type \<open>error\<close> is \<open>None\<close> of type \<open>error option\<close>.
\<close>

datatype error = Canceled | ErrorString string | Wrapped string error

fun Error :: "error \<Rightarrow> string" where
  "Error Canceled = ''context canceled''"
| "Error (ErrorString m) = m"
| "Error (Wrapped p e) = p @ Error e"

subsection \<open>Durations and floating-point numbers\<close>

text \<open>
  \<open>time.Duration\<close> is an \<open>int64\<close> count of nanoseconds. The counters and durations of a
  run are bounded by the length of the workload and by the running time, far from
  \<open>2^63\<close>, so they are integers here.
\<close>

type_synonym Duration = int

text \<open>
  A \<open>float64\<close> is a finite number, an infinity or NaN. Finite values are rationals:
  the rounding to 53 bits of mantissa and the sign of zero are not modelled, the
  special values are, so that a division of zero by zero is visibly NaN.
\<close>

datatype float64 = Finite rat | PosInf | NegInf | NaN

definition float64_of_int :: "int \<Rightarrow> float64" where
  "float64_of_int n = Finite (of_int n)"

fun fdiv :: "float64 \<Rightarrow> float64 \<Rightarrow> float64" where
  "fdiv NaN y = NaN"
| "fdiv x NaN = NaN"
| "fdiv (Finite a) (Finite b) =
     (if b = 0 then (if a = 0 then NaN else if 0 < a then PosInf else NegInf)
      else Finite (a / b))"
| "fdiv (Finite a) y = Finite 0"
| "fdiv PosInf (Finite b) = (if b < 0 then NegInf else PosInf)"
| "fdiv NegInf (Finite b) = (if b < 0 then PosInf else NegInf)"
| "fdiv x y = NaN"

fun fmul :: "float64 \<Rightarrow> float64 \<Rightarrow> float64" where
  "fmul NaN y = NaN"
| "fmul x NaN = NaN"
| "fmul (Finite a) (Finite b) = Finite (a * b)"
| "fmul (Finite a) PosInf = (if a = 0 then NaN else if 0 < a then PosInf else NegInf)"
| "fmul (Finite a) NegInf = (if a = 0 then NaN else if 0 < a then NegInf else PosInf)"
| "fmul PosInf (Finite b) = (if b = 0 then NaN else if 0 < b then PosInf else NegInf)"
| "fmul NegInf (Finite b) = (if b = 0 then NaN else if 0 < b then NegInf else PosInf)"
| "fmul PosInf PosInf = PosInf"
| "fmul NegInf NegInf = PosInf"
| "fmul x y = NegInf"

text \<open>\<open>x > y\<close> on \<open>float64\<close>: false as soon as one side is NaN.\<close>

fun fgt :: "float64 \<Rightarrow> float64 \<Rightarrow> bool" where
  "fgt NaN y = False"
| "fgt x NaN = False"
| "fgt (Finite a) (Finite b) = (b < a)"
| "fgt PosInf y = (y \<noteq> PosInf)"
| "fgt x NegInf = (x \<noteq> NegInf)"
| "fgt x y = False"

text \<open>
  The conversion \<open>int(f)\<close> drops the fraction (towards zero); Go leaves the result
  open when \<open>f\<close> is not finite, which is \<open>None\<close>.
\<close>

fun int_of_float64 :: "float64 \<Rightarrow> int option" where
  "int_of_float64 (Finite q) = Some (if 0 \<le> q then \<lfloor>q\<rfloor> else \<lceil>q\<rceil>)"
| "int_of_float64 x = None"

text \<open>\<open>Duration.Seconds\<close>: the duration as a floating-point number of seconds.\<close>

definition Seconds :: "Duration \<Rightarrow> float64" where
  "Seconds d = Finite (of_int d / 1000000000)"

subsection \<open>Formatting\<close>

text \<open>\<open>fmt.Sprintf("%d", n)\<close> for a number that is not negative.\<close>

definition digit_char :: "nat \<Rightarrow> char" where
  "digit_char d = ''0123456789'' ! d"

function decimal :: "nat \<Rightarrow> string" where
  "decimal n = (if n < 10 then [digit_char n] else decimal (n div 10) @ [digit_char (n mod 10)])"
  by pat_completeness auto
termination
  by (relation "measure id") auto

declare decimal.simps [simp del]

text \<open>\<open>fmt.Sprintf("%d", n)\<close> for any integer.\<close>

definition Sprintf_d :: "int \<Rightarrow> string" where
  "Sprintf_d n = (if n < 0 then CHR ''-'' # decimal (nat (- n)) else decimal (nat n))"

text \<open>\<open>fmt.Sprintf("%x", b)\<close> for a byte slice: two lower-case digits for each byte.\<close>

definition hex_digit :: "nat \<Rightarrow> char" where
  "hex_digit d = ''0123456789abcdef'' ! d"

definition hex_byte :: "8 word \<Rightarrow> string" where
  "hex_byte b = [hex_digit (unat b div 16), hex_digit (unat b mod 16)]"

definition Sprintf_x :: "8 word list \<Rightarrow> string" where
  "Sprintf_x b = concat (map hex_byte b)"

section \<open>Package workload\<close>

text \<open>
  \<open>OperationType\<close> is an integer type; the package names two of its values,
  \<open>ReadOp\<close> and \<open>WriteOp\<close>, which are the ones the generators build. An operation
  may carry any other integer as its type.
\<close>

type_synonym OperationType = int

definition ReadOp :: OperationType where
  "ReadOp = 0"

definition WriteOp :: OperationType where
  "WriteOp = 1"

record Operation =
  Type :: OperationType
  Key :: string

text \<open>
  The random number generators are libraries seeded from the clock: they are
  parameters of the model, each a state with the methods the generators call.
  \<open>NewZipf s v imax\<close> answers \<open>None\<close> for the nil generator the library returns on
  parameters it rejects; drawing from nil panics.
\<close>

record ('z, 'g) rand =
  NewZipf :: "float64 \<Rightarrow> float64 \<Rightarrow> 64 word \<Rightarrow> 'z option"
  Uint64 :: "'z \<Rightarrow> 64 word \<times> 'z"
  Float64 :: "'g \<Rightarrow> float64 \<times> 'g"
  Intn :: "'g \<Rightarrow> int \<Rightarrow> int \<times> 'g"

text \<open>
  The body of the loop of \<open>Generate\<close>, run \<open>n\<close> times from the generator states
  \<open>z\<close> and \<open>g\<close>; \<open>None\<close> is a panic.
\<close>

fun Generate_loop ::
  "('z, 'g) rand \<Rightarrow> float64 \<Rightarrow> nat \<Rightarrow> 'z option \<Rightarrow> 'g \<Rightarrow> Operation list option" where
  "Generate_loop R readWriteRatio 0 zipf ratioRng = Some []"
| "Generate_loop R readWriteRatio (Suc n) zipf ratioRng =
     (case zipf of
        None \<Rightarrow> None
      | Some z \<Rightarrow>
          (let (k, z') = Uint64 R z;
               key = ''key-'' @ decimal (unat k);
               (f, g') = Float64 R ratioRng;
               opType = (if fgt f readWriteRatio then WriteOp else ReadOp)
           in map_option (\<lambda>ops. \<lparr>Type = opType, Key = key\<rparr> # ops)
                (Generate_loop R readWriteRatio n (Some z') g')))"

definition Generate ::
  "('z, 'g) rand \<Rightarrow> 'g \<Rightarrow> int \<Rightarrow> int \<Rightarrow> float64 \<Rightarrow> float64 \<Rightarrow> float64 \<Rightarrow> Operation list option" where
  "Generate R ratioRng numOps numKeys readWriteRatio zipfS zipfV =
     (if numOps < 0 then None
      else Generate_loop R readWriteRatio (nat numOps)
             (NewZipf R zipfS zipfV (word_of_int (numKeys - 1))) ratioRng)"

text \<open>The loop of \<open>GenerateUniform\<close>; \<open>rng.Intn(numKeys)\<close> panics unless \<open>numKeys > 0\<close>.\<close>

fun GenerateUniform_loop ::
  "('z, 'g) rand \<Rightarrow> int \<Rightarrow> float64 \<Rightarrow> nat \<Rightarrow> 'g \<Rightarrow> Operation list option" where
  "GenerateUniform_loop R numKeys readWriteRatio 0 rng = Some []"
| "GenerateUniform_loop R numKeys readWriteRatio (Suc n) rng =
     (if numKeys \<le> 0 then None
      else
        (let (k, g1) = Intn R rng numKeys;
             key = ''key-'' @ Sprintf_d k;
             (f, g2) = Float64 R g1;
             opType = (if fgt f readWriteRatio then WriteOp else ReadOp)
         in map_option (\<lambda>ops. \<lparr>Type = opType, Key = key\<rparr> # ops)
              (GenerateUniform_loop R numKeys readWriteRatio n g2)))"

definition GenerateUniform ::
  "('z, 'g) rand \<Rightarrow> 'g \<Rightarrow> int \<Rightarrow> int \<Rightarrow> float64 \<Rightarrow> Operation list option" where
  "GenerateUniform R rng numOps numKeys readWriteRatio =
     (if numOps < 0 then None
      else GenerateUniform_loop R numKeys readWriteRatio (nat numOps) rng)"

text \<open>
  The values the generators draw for the read/write decision, in the order of the
  operations: the sequences the classification is stated against.
\<close>

fun ratio_draws :: "('z, 'g) rand \<Rightarrow> nat \<Rightarrow> 'g \<Rightarrow> float64 list" where
  "ratio_draws R 0 g = []"
| "ratio_draws R (Suc n) g = (let (f, g') = Float64 R g in f # ratio_draws R n g')"

fun uniform_draws :: "('z, 'g) rand \<Rightarrow> int \<Rightarrow> nat \<Rightarrow> 'g \<Rightarrow> float64 list" where
  "uniform_draws R numKeys 0 g = []"
| "uniform_draws R numKeys (Suc n) g =
     (let (k, g1) = Intn R g numKeys; (f, g2) = Float64 R g1
      in f # uniform_draws R numKeys n g2)"

text \<open>The contract of \<open>Float64\<close>: every draw lies in \<open>[0, 1)\<close>.\<close>

definition in_unit :: "float64 \<Rightarrow> bool" where
  "in_unit f = (case f of Finite q \<Rightarrow> 0 \<le> q \<and> q < 1 | _ \<Rightarrow> False)"

section \<open>Package benchmark\<close>

subsection \<open>The strategy interface and the result\<close>

text \<open>
  \<open>CachingStrategy\<close> is an interface: a record of its methods over the state \<open>'s\<close> of
  the implementation. A method returns its Go results and the state it leaves.
\<close>

record 's CachingStrategy =
  Name :: string
  Init :: "'s \<Rightarrow> error option \<times> 's"
  Read :: "'s \<Rightarrow> string \<Rightarrow> (string \<times> bool \<times> error option) \<times> 's"
  Write :: "'s \<Rightarrow> string \<Rightarrow> string \<Rightarrow> error option \<times> 's"
  Close :: "'s \<Rightarrow> error option \<times> 's"

record Result =
  StrategyName :: string
  TotalOperations :: int
  TotalHits :: int
  TotalMisses :: int
  TotalWrites :: int
  TotalErrors :: int
  TotalDuration :: Duration
  HitRate :: float64
  OpsPerSecond :: float64
  Latencies :: "Duration list"

record 's Runner =
  strategy :: "'s CachingStrategy"
  workload :: "Operation list"
  concurrency :: int
  valueSizeBytes :: int
  result :: Result

text \<open>The fields \<open>NewRunner\<close> does not set have Go's zero value.\<close>

definition NewRunner :: "'s CachingStrategy \<Rightarrow> Operation list \<Rightarrow> int \<Rightarrow> int \<Rightarrow> 's Runner" where
  "NewRunner strat wl conc vsize =
     \<lparr>strategy = strat, workload = wl, concurrency = conc, valueSizeBytes = vsize,
      result = \<lparr>StrategyName = Name strat, TotalOperations = 0, TotalHits = 0,
                TotalMisses = 0, TotalWrites = 0, TotalErrors = 0, TotalDuration = 0,
                HitRate = Finite 0, OpsPerSecond = Finite 0, Latencies = []\<rparr>\<rparr>"

subsection \<open>What a run reads from outside\<close>

text \<open>
  A run depends on the scheduler, the system's random bytes and the clock. \<open>sched\<close>
  lists, step by step, the worker that moves next (taken modulo the number of
  workers); \<open>entropy w j\<close> is the \<open>j\<close>-th byte \<open>crypto/rand\<close> hands to worker \<open>w\<close>;
  \<open>latency k\<close> is the time measured around the operation that is the \<open>k\<close>-th to
  complete; \<open>elapsed\<close> is the time measured around the whole run.
\<close>

record env =
  sched :: "nat list"
  entropy :: "nat \<Rightarrow> nat \<Rightarrow> 8 word"
  latency :: "nat \<Rightarrow> Duration"
  elapsed :: Duration

text \<open>
  A ghost trace of the run, one event for each operation a worker has run, in the order
  the operations reached the strategy: what the strategy was asked, by which worker,
  and what it answered, or the operation the worker had no call for.
\<close>

datatype event =
  ReadEv nat string bool "error option"
| WriteEv nat string string "error option"
| NoCallEv nat Operation

text \<open>
  The state the workers share: the strategy, the result under construction, the
  queue of operations, the operation each worker has received and not yet run, the
  buffered latency channel, and the trace.
\<close>

record 's world =
  st :: 's
  res :: Result
  opsChan :: "Operation list"
  holding :: "Operation option list"
  latencyChan :: "Duration list"
  events :: "event list"

subsection \<open>The worker\<close>

text \<open>\<open>generateValue\<close>: \<open>n\<close> random bytes, printed with \<open>%x\<close>; \<open>make\<close> panics on a negative size.\<close>

definition generateValue :: "int \<Rightarrow> (nat \<Rightarrow> 8 word) \<Rightarrow> string option" where
  "generateValue n rnd =
     (if n < 0 then None else Some (Sprintf_x (map rnd [0..<nat n])))"

text \<open>
  The body of the worker's loop, for worker \<open>wid\<close> holding the payload
  \<open>valueToWrite\<close>, on the operation \<open>op\<close> whose call takes the time \<open>lat\<close>. The
  \<open>switch\<close> has a case for \<open>ReadOp\<close> and one for \<open>WriteOp\<close> and no default: an
  operation of another type is timed, and nothing is asked of the strategy or
  counted. Every counter is updated by an atomic addition.
\<close>

definition worker_turn ::
  "'s CachingStrategy \<Rightarrow> nat \<Rightarrow> string \<Rightarrow> Duration \<Rightarrow> Operation \<Rightarrow> 's world \<Rightarrow> 's world" where
  "worker_turn strat wid valueToWrite lat op w =
     (let (err, w1) =
        (if Type op = ReadOp then
             (let ((value, hit, err), s') = Read strat (st w) (Key op);
                  r = res w;
                  r' = (if err = None
                        then (if hit then r\<lparr>TotalHits := TotalHits r + 1\<rparr>
                              else r\<lparr>TotalMisses := TotalMisses r + 1\<rparr>)
                        else r)
              in (err, w\<lparr>st := s', res := r',
                        events := events w @ [ReadEv wid (Key op) hit err]\<rparr>))
         else if Type op = WriteOp then
             (let (err, s') = Write strat (st w) (Key op) valueToWrite;
                  r = res w;
                  r' = (if err = None then r\<lparr>TotalWrites := TotalWrites r + 1\<rparr> else r)
              in (err, w\<lparr>st := s', res := r',
                        events := events w @ [WriteEv wid (Key op) valueToWrite err]\<rparr>))
         else (None, w\<lparr>events := events w @ [NoCallEv wid op]\<rparr>));
          w2 = w1\<lparr>latencyChan := latencyChan w1 @ [lat]\<rparr>
      in (if err \<noteq> None
          then w2\<lparr>res := (res w2)\<lparr>TotalErrors := TotalErrors (res w2) + 1\<rparr>\<rparr>
          else w2))"

text \<open>
  One step of worker \<open>wid\<close>. A worker that holds an operation runs the body of its
  loop on it; a worker that holds none receives the next operation of the queue; when
  the queue (closed after loading) is empty its loop is over and it does nothing more.
  Between the reception and the call any other worker may move, so the operations
  reach the strategy in an order the scheduler decides. The calls themselves are
  taken one at a time, and a call is one step with the additions that follow it:
  these are atomic and commute, so that running them later changes no result.
\<close>

definition worker_step ::
  "'s CachingStrategy \<Rightarrow> env \<Rightarrow> string list \<Rightarrow> nat \<Rightarrow> 's world \<Rightarrow> 's world" where
  "worker_step strat E values wid w =
     (case holding w ! wid of
        Some op \<Rightarrow>
          worker_turn strat wid (values ! wid) (latency E (length (latencyChan w))) op
            (w\<lparr>holding := (holding w)[wid := None]\<rparr>)
      | None \<Rightarrow>
          (case opsChan w of
             [] \<Rightarrow> w
           | op # rest \<Rightarrow> w\<lparr>opsChan := rest, holding := (holding w)[wid := Some op]\<rparr>))"

fun run_schedule ::
  "'s CachingStrategy \<Rightarrow> env \<Rightarrow> string list \<Rightarrow> nat list \<Rightarrow> 's world \<Rightarrow> 's world" where
  "run_schedule strat E values [] w = w"
| "run_schedule strat E values (i # is) w =
     run_schedule strat E values is (worker_step strat E values (i mod length values) w)"

text \<open>
  The workers until \<open>wg.Wait\<close> returns: they move as the scheduler says, and when
  its list ends with work left the run is finished by worker 0, who drains the queue,
  and then by the others, who run the operation they hold. \<open>values\<close> holds the
  payload of each worker and is not empty.
\<close>

definition workers ::
  "'s CachingStrategy \<Rightarrow> env \<Rightarrow> string list \<Rightarrow> 's world \<Rightarrow> 's world" where
  "workers strat E values w =
     (let w1 = run_schedule strat E values (sched E) w
      in run_schedule strat E values
           (replicate (2 * length (opsChan w1) + 1) 0 @ [1..<length values]) w1)"

subsection \<open>The metrics and the run\<close>

definition calculateFinalMetrics :: "Result \<Rightarrow> Result" where
  "calculateFinalMetrics r =
     (let r1 = (if 0 < TotalHits r + TotalMisses r
                then r\<lparr>HitRate := fdiv (float64_of_int (TotalHits r))
                                     (float64_of_int (TotalHits r + TotalMisses r))\<rparr>
                else r)
      in (if fgt (Seconds (TotalDuration r1)) (Finite 0)
          then r1\<lparr>OpsPerSecond := fdiv (float64_of_int (TotalOperations r1))
                                       (Seconds (TotalDuration r1))\<rparr>
          else r1))"

text \<open>The payloads of the workers, each generated by its worker before its loop.\<close>

definition worker_values :: "int \<Rightarrow> env \<Rightarrow> int \<Rightarrow> string list option" where
  "worker_values vsize E conc =
     those (map (\<lambda>wid. generateValue vsize (entropy E wid)) [0..<nat conc])"

text \<open>
  \<open>Run\<close> from the strategy state \<open>s0\<close>. \<open>None\<close> is a panic: \<open>WaitGroup.Add\<close> of a
  negative number, or a worker whose \<open>generateValue\<close> panics. Otherwise the answer
  is the pair Go returns and the world the run leaves. The queue is loaded once the
  strategy is initialised; with no worker it is never read. The deferred \<open>Close\<close>
  runs on the way out; the log lines are left out.
\<close>

definition Run ::
  "'s Runner \<Rightarrow> env \<Rightarrow> 's \<Rightarrow> ((Result \<times> error option) \<times> 's world) option" where
  "Run r E s0 =
     (let w0 = \<lparr>st = s0, res = result r, opsChan = [], holding = [], latencyChan = [],
                events = []\<rparr>
      in case Init (strategy r) s0 of
           (Some err, s1) \<Rightarrow>
             Some ((res w0, Some (Wrapped ''failed to initialize strategy: '' err)),
                   w0\<lparr>st := s1\<rparr>)
         | (None, s1) \<Rightarrow>
             (if concurrency r < 0 then None
              else
                (case worker_values (valueSizeBytes r) E (concurrency r) of
                   None \<Rightarrow> None
                 | Some values \<Rightarrow>
                     (let w1 = w0\<lparr>st := s1, opsChan := workload r,
                                  holding := replicate (nat (concurrency r)) None\<rparr>;
                          w2 = (if concurrency r = 0 then w1
                                else workers (strategy r) E values w1);
                          r1 = (res w2)\<lparr>TotalDuration := elapsed E,
                                         TotalOperations := int (length (workload r))\<rparr>;
                          r2 = r1\<lparr>Latencies := Latencies r1 @ latencyChan w2\<rparr>;
                          r3 = calculateFinalMetrics r2;
                          (cerr, s2) = Close (strategy r) (st w2)
                      in Some ((r3, None), w2\<lparr>st := s2, res := r3, latencyChan := []\<rparr>)))))"

subsection \<open>Traces\<close>

text \<open>The classification of the events of a trace.\<close>

fun is_hit :: "event \<Rightarrow> bool" where
  "is_hit (ReadEv wid k hit err) = (err = None \<and> hit)"
| "is_hit e = False"

fun is_miss :: "event \<Rightarrow> bool" where
  "is_miss (ReadEv wid k hit err) = (err = None \<and> \<not> hit)"
| "is_miss e = False"

fun is_write :: "event \<Rightarrow> bool" where
  "is_write (WriteEv wid k v err) = (err = None)"
| "is_write e = False"

fun is_error :: "event \<Rightarrow> bool" where
  "is_error (ReadEv wid k hit err) = (err \<noteq> None)"
| "is_error (WriteEv wid k v err) = (err \<noteq> None)"
| "is_error (NoCallEv wid op) = False"

fun is_ok_read :: "event \<Rightarrow> bool" where
  "is_ok_read (ReadEv wid k hit err) = (err = None)"
| "is_ok_read e = False"

fun is_no_call :: "event \<Rightarrow> bool" where
  "is_no_call (NoCallEv wid op) = True"
| "is_no_call e = False"

text \<open>The operation an event answers, and the worker that ran it.\<close>

fun event_op :: "event \<Rightarrow> Operation" where
  "event_op (ReadEv wid k hit err) = \<lparr>Type = ReadOp, Key = k\<rparr>"
| "event_op (WriteEv wid k v err) = \<lparr>Type = WriteOp, Key = k\<rparr>"
| "event_op (NoCallEv wid op) = op"

fun event_worker :: "event \<Rightarrow> nat" where
  "event_worker (ReadEv wid k hit err) = wid"
| "event_worker (WriteEv wid k v err) = wid"
| "event_worker (NoCallEv wid op) = wid"

definition count_events :: "(event \<Rightarrow> bool) \<Rightarrow> event list \<Rightarrow> int" where
  "count_events P evs = int (length (filter P evs))"

subsection \<open>The sequential reference\<close>

text \<open>
  What the specification asks of the engine, said of one operation after the other:
  each operation invokes the strategy's Read or Write once, and its outcome is
  classified from the hit flag and the error the strategy returns. \<open>answer\<close> asks
  the strategy in state \<open>s\<close> the operation \<open>op\<close> on behalf of worker \<open>wid\<close> with the
  payload \<open>v\<close> and returns the event and the state of the strategy after the call;
  \<open>replay\<close> asks a list of operations in order, each with its worker. Neither uses
  the worker's code; the engine is compared with them.
\<close>

definition answer ::
  "'s CachingStrategy \<Rightarrow> string \<Rightarrow> nat \<Rightarrow> Operation \<Rightarrow> 's \<Rightarrow> event \<times> 's" where
  "answer strat v wid op s =
     (if Type op = ReadOp
      then (case Read strat s (Key op) of
              ((value, hit, err), s') \<Rightarrow> (ReadEv wid (Key op) hit err, s'))
      else if Type op = WriteOp
      then (case Write strat s (Key op) v of
              (err, s') \<Rightarrow> (WriteEv wid (Key op) v err, s'))
      else (NoCallEv wid op, s))"

fun replay ::
  "'s CachingStrategy \<Rightarrow> string list \<Rightarrow> (nat \<times> Operation) list \<Rightarrow> 's \<Rightarrow> event list \<times> 's" where
  "replay strat values [] s = ([], s)"
| "replay strat values ((wid, op) # calls) s =
     (case answer strat (values ! wid) wid op s of
        (e, s') \<Rightarrow> (case replay strat values calls s' of (es, s'') \<Rightarrow> (e # es, s'')))"

text \<open>The operations a trace is about, each with its worker.\<close>

definition calls_of :: "event list \<Rightarrow> (nat \<times> Operation) list" where
  "calls_of evs = map (\<lambda>e. (event_worker e, event_op e)) evs"

text \<open>The operations the workers hold.\<close>

definition held :: "Operation option list \<Rightarrow> Operation list" where
  "held hs = concat (map (\<lambda>h. case h of None \<Rightarrow> [] | Some op \<Rightarrow> [op]) hs)"

subsection \<open>The invariant of the workers\<close>

text \<open>
  What holds of the world whatever the workers have done so far: every worker has its
  slot; the operations of the workload are those already run, those held by a worker
  and those still in the queue; the trace and the state of the strategy are what the
  sequential reference gives on the calls of the trace, in the order they reached the
  strategy; an event names a worker of the run; there is one latency for each event;
  and the counters are those of the start plus the events of each class.
\<close>

definition run_inv ::
  "'s CachingStrategy \<Rightarrow> string list \<Rightarrow> 's \<Rightarrow> Result \<Rightarrow> Operation list \<Rightarrow> 's world \<Rightarrow> bool" where
  "run_inv strat values s1 r0 wl w =
     (length (holding w) = length values
      \<and> mset (map event_op (events w)) + mset (held (holding w)) + mset (opsChan w) = mset wl
      \<and> replay strat values (calls_of (events w)) s1 = (events w, st w)
      \<and> list_all (\<lambda>e. event_worker e < length values) (events w)
      \<and> length (latencyChan w) = length (events w)
      \<and> res w = r0\<lparr>TotalHits := TotalHits r0 + count_events is_hit (events w),
                     TotalMisses := TotalMisses r0 + count_events is_miss (events w),
                     TotalWrites := TotalWrites r0 + count_events is_write (events w),
                     TotalErrors := TotalErrors r0 + count_events is_error (events w)\<rparr>)"

section \<open>Package implementations: the local cache with invalidation by publication\<close>

definition InvalidationChannel :: string where
  "InvalidationChannel = ''cache-invalidation''"

record InvalidationMessage =
  Key :: string

text \<open>
  The libraries the strategy calls are parameters: the local cache (\<open>ristretto\<close>)
  over its state \<open>'c\<close>, the client of the remote store (\<open>rueidis\<close>) over its state
  \<open>'r\<close> with results of type \<open>'m\<close>, and the JSON encoder and decoder. \<open>Unmarshal\<close>
  receives the message and the structure it fills, and answers the error and the
  structure it leaves.
\<close>

datatype command = GET string | SET string string | PUBLISH string string

record ('c, 'r, 'm) libs =
  cache_Get :: "'c \<Rightarrow> string \<Rightarrow> string option \<times> 'c"
  cache_Set :: "'c \<Rightarrow> string \<Rightarrow> string \<Rightarrow> int \<Rightarrow> bool \<times> 'c"
  cache_Del :: "'c \<Rightarrow> string \<Rightarrow> 'c"
  Do :: "'r \<Rightarrow> command \<Rightarrow> 'm \<times> 'r"
  ToString :: "'m \<Rightarrow> string \<times> error option"
  ResultError :: "'m \<Rightarrow> error option"
  Marshal :: "InvalidationMessage \<Rightarrow> string \<times> error option"
  Unmarshal :: "string \<Rightarrow> InvalidationMessage \<Rightarrow> error option \<times> InvalidationMessage"

text \<open>
  The strategy holds the state of its cache and of its client. Two ghost fields
  record, in order, the calls made to the cache and the commands sent to the store.
\<close>

datatype cache_call = CacheGet string | CacheSet string string int | CacheDel string

record ('c, 'r) RistrettoPubSubStrategy =
  l1Cache :: 'c
  redisClient :: 'r
  maxCost :: int
  cache_calls :: "cache_call list"
  commands :: "command list"

definition RistrettoPubSubStrategy_Read ::
  "('c, 'r, 'm) libs \<Rightarrow> ('c, 'r) RistrettoPubSubStrategy \<Rightarrow> string
     \<Rightarrow> (string \<times> bool \<times> error option) \<times> ('c, 'r) RistrettoPubSubStrategy" where
  "RistrettoPubSubStrategy_Read L s key =
     (let (found, c1) = cache_Get L (l1Cache s) key;
          s1 = s\<lparr>l1Cache := c1, cache_calls := cache_calls s @ [CacheGet key]\<rparr>
      in case found of
           Some val \<Rightarrow> ((val, True, None), s1)
         | None \<Rightarrow>
             (let (m, r1) = Do L (redisClient s1) (GET key);
                  s2 = s1\<lparr>redisClient := r1, commands := commands s1 @ [GET key]\<rparr>;
                  (value, err) = ToString L m;
                  s3 = (if err = None
                        then (let cost = int (length value);
                                  (ok, c2) = cache_Set L (l1Cache s2) key value cost
                              in s2\<lparr>l1Cache := c2,
                                    cache_calls := cache_calls s2 @ [CacheSet key value cost]\<rparr>)
                        else s2)
              in ((value, False, err), s3)))"

definition RistrettoPubSubStrategy_Write ::
  "('c, 'r, 'm) libs \<Rightarrow> ('c, 'r) RistrettoPubSubStrategy \<Rightarrow> string \<Rightarrow> string
     \<Rightarrow> error option \<times> ('c, 'r) RistrettoPubSubStrategy" where
  "RistrettoPubSubStrategy_Write L s key value =
     (let (m1, r1) = Do L (redisClient s) (SET key value);
          s1 = s\<lparr>redisClient := r1, commands := commands s @ [SET key value]\<rparr>;
          err = ResultError L m1
      in if err \<noteq> None then (err, s1)
         else
           (let (msg, merr) = Marshal L \<lparr>Key = key\<rparr>;
                (m2, r2) = Do L (redisClient s1) (PUBLISH InvalidationChannel msg);
                s2 = s1\<lparr>redisClient := r2,
                        commands := commands s1 @ [PUBLISH InvalidationChannel msg]\<rparr>
            in (ResultError L m2, s2)))"

text \<open>The function the listener hands to \<open>Receive\<close>, run on each message.\<close>

definition on_message ::
  "('c, 'r, 'm) libs \<Rightarrow> string \<Rightarrow> ('c, 'r) RistrettoPubSubStrategy
     \<Rightarrow> ('c, 'r) RistrettoPubSubStrategy" where
  "on_message L msg s =
     (let (err, invalMsg) = Unmarshal L msg \<lparr>Key = ''''\<rparr>
      in if err = None
         then (if Key invalMsg \<noteq> ''''
               then s\<lparr>l1Cache := cache_Del L (l1Cache s) (Key invalMsg),
                      cache_calls := cache_calls s @ [CacheDel (Key invalMsg)]\<rparr>
               else s)
         else s)"

text \<open>
  \<open>listenForInvalidations\<close>: \<open>Receive\<close> delivers the messages \<open>msgs\<close> to the function
  above and then returns \<open>recv\<close>; the listener writes a line to the log \<open>lg\<close> when that
  is an error other than the cancellation. It returns nothing.
\<close>

definition listenForInvalidations ::
  "('c, 'r, 'm) libs \<Rightarrow> string list \<Rightarrow> error option
     \<Rightarrow> ('c, 'r) RistrettoPubSubStrategy \<times> string list
     \<Rightarrow> ('c, 'r) RistrettoPubSubStrategy \<times> string list" where
  "listenForInvalidations L msgs recv = (\<lambda>(s, lg).
     (let s' = foldl (\<lambda>t msg. on_message L msg t) s msgs
      in case recv of
           None \<Rightarrow> (s', lg)
         | Some err \<Rightarrow>
             (if err \<noteq> Canceled then (s', lg @ [''Error in Pub/Sub listener: '' @ Error err])
              else (s', lg))))"

section \<open>The final comparison\<close>

text \<open>
  The body of the loop of \<open>printFinalComparison\<close> for one result, up to the numbers it
  prints. The index of the percentile is \<open>int(float64(len) * 0.95)\<close>.
\<close>

definition p95Index :: "nat \<Rightarrow> int option" where
  "p95Index n = int_of_float64 (fmul (float64_of_int (int n)) (Finite (95 / 100)))"

text \<open>The percentile of latencies already sorted; \<open>None\<close> is a panic of the indexing.\<close>

definition p95Latency :: "Duration list \<Rightarrow> Duration option" where
  "p95Latency sorted_lats =
     (if 20 < length sorted_lats
      then (case p95Index (length sorted_lats) of
              None \<Rightarrow> None
            | Some i \<Rightarrow> (if 0 \<le> i \<and> nat i < length sorted_lats
                         then Some (sorted_lats ! nat i) else None))
      else Some 0)"

text \<open>
  The pair (average latency, 95th percentile) of a row. The average divides by the
  number of latencies, which panics when there is none.
\<close>

definition comparison_row :: "Result \<Rightarrow> (Duration \<times> Duration) option" where
  "comparison_row r =
     (let lats = sort (Latencies r)
      in case p95Latency lats of
           None \<Rightarrow> None
         | Some p95 \<Rightarrow>
             (let totalLatency = sum_list lats
              in if length lats = 0 then None
                 else Some (totalLatency sdiv int (length lats), p95)))"

section \<open>Concrete instances\<close>

text \<open>
  The theorems below hold for every strategy, library and environment. The instances
  here are the ones they are run on: a strategy that keeps the list of the keys it has
  seen and fails on the key \<open>down\<close>, a strategy whose initialisation fails, an
  environment with a scheduler that alternates two workers and constant clock
  readings, a scheduler under which the workers overtake each other, caches and
  stores that are association lists, a decoder for the messages \<open>{"key":"..."}\<close> and
  \<open>{}\<close>, generators that count their draws, and results with given latencies.
\<close>

definition stub_strategy :: "string list CachingStrategy" where
  "stub_strategy =
     \<lparr>Name = ''stub'',
      Init = (\<lambda>s. (None, s)),
      Read = (\<lambda>s k. if k = ''down'' then (([], False, Some (ErrorString ''unreachable'')), s)
                      else if k \<in> set s then ((''v'', True, None), s)
                      else ((''v'', False, None), k # s)),
      Write = (\<lambda>s k v. if k = ''down'' then (Some (ErrorString ''unreachable''), s)
                         else (None, removeAll k s)),
      Close = (\<lambda>s. (None, s))\<rparr>"

definition refusing_strategy :: "string list CachingStrategy" where
  "refusing_strategy = stub_strategy\<lparr>Init := (\<lambda>s. (Some (ErrorString ''refused''), s))\<rparr>"

definition stub_env :: env where
  "stub_env = \<lparr>sched = [0, 1, 0, 1, 0, 1, 0, 1], entropy = (\<lambda>w j. 171), latency = (\<lambda>k. 5),
               elapsed = 10\<rparr>"

text \<open>
  A scheduler under which worker 1 receives the second operation and runs it before
  worker 0 runs the first, and a workload for it whose last write fails.
\<close>

definition racing_env :: env where
  "racing_env = stub_env\<lparr>sched := [0, 1, 1, 0, 1, 0, 0, 1]\<rparr>"

definition racing_workload :: "Operation list" where
  "racing_workload =
     [\<lparr>Type = ReadOp, Operation.Key = ''a''\<rparr>, \<lparr>Type = WriteOp, Operation.Key = ''a''\<rparr>,
      \<lparr>Type = ReadOp, Operation.Key = ''a''\<rparr>, \<lparr>Type = WriteOp, Operation.Key = ''down''\<rparr>]"

text \<open>A workload whose second operation is neither a read nor a write.\<close>

definition odd_workload :: "Operation list" where
  "odd_workload =
     [\<lparr>Type = ReadOp, Operation.Key = ''a''\<rparr>, \<lparr>Type = 2, Operation.Key = ''a''\<rparr>]"

definition stub_workload :: "Operation list" where
  "stub_workload =
     [\<lparr>Type = ReadOp, Operation.Key = ''a''\<rparr>, \<lparr>Type = ReadOp, Operation.Key = ''a''\<rparr>,
      \<lparr>Type = WriteOp, Operation.Key = ''a''\<rparr>, \<lparr>Type = ReadOp, Operation.Key = ''down''\<rparr>]"

definition quote :: char where
  "quote = CHR 0x22"

definition stub_Unmarshal ::
  "string \<Rightarrow> InvalidationMessage \<Rightarrow> error option \<times> InvalidationMessage" where
  "stub_Unmarshal msg m =
     (let pre = ''{'' @ [quote] @ ''key'' @ [quote] @ '':'' @ [quote];
          post = [quote] @ ''}'';
          body = drop (length pre) msg
      in if msg = ''{}'' then (None, m)
         else if take (length pre) msg = pre \<and> length post \<le> length body
                 \<and> drop (length body - length post) body = post
              then (None, m\<lparr>Key := take (length body - length post) body\<rparr>)
              else (Some (ErrorString ''invalid character''), m))"

definition stub_libs ::
  "((string \<times> string) list, (string \<times> string) list, string \<times> error option) libs" where
  "stub_libs =
     \<lparr>cache_Get = (\<lambda>c k. (map_of c k, c)),
      cache_Set = (\<lambda>c k v cost. (True, (k, v) # c)),
      cache_Del = (\<lambda>c k. filter (\<lambda>p. fst p \<noteq> k) c),
      Do = (\<lambda>r cmd. case cmd of
              GET k \<Rightarrow> (case map_of r k of
                          Some v \<Rightarrow> ((v, None), r)
                        | None \<Rightarrow> (([], Some (ErrorString ''redis nil message'')), r))
            | SET k v \<Rightarrow> (if k = ''down'' then (([], Some (ErrorString ''unreachable'')), r)
                          else ((''OK'', None), (k, v) # r))
            | PUBLISH ch m \<Rightarrow> ((''1'', None), r)),
      ToString = (\<lambda>m. m),
      ResultError = snd,
      Marshal = (\<lambda>m. (''{'' @ [quote] @ ''key'' @ [quote] @ '':'' @ [quote] @ Key m @ [quote] @ ''}'',
                       None)),
      Unmarshal = stub_Unmarshal\<rparr>"

definition stub_state :: "((string \<times> string) list, (string \<times> string) list) RistrettoPubSubStrategy" where
  "stub_state =
     \<lparr>l1Cache = [(''a'', ''1'')], redisClient = [(''a'', ''1''), (''b'', ''22'')],
      maxCost = 1073741824, cache_calls = [], commands = []\<rparr>"

definition stub_rand :: "(nat, nat) rand" where
  "stub_rand =
     \<lparr>NewZipf = (\<lambda>s v imax. if fgt s (Finite 1) \<and> \<not> fgt (Finite 1) v then Some 0 else None),
      Uint64 = (\<lambda>z. (word_of_nat z, Suc z)),
      Float64 = (\<lambda>g. (Finite (1 / (of_nat g + 2)), Suc g)),
      Intn = (\<lambda>g n. (int g mod n, Suc g))\<rparr>"

text \<open>A result with the given latencies, for the rows of the comparison.\<close>

definition stub_result :: "Duration list \<Rightarrow> Result" where
  "stub_result lats =
     \<lparr>StrategyName = ''stub'', TotalOperations = int (length lats), TotalHits = 0,
      TotalMisses = int (length lats), TotalWrites = 0, TotalErrors = 0, TotalDuration = 10,
      HitRate = Finite 0, OpsPerSecond = Finite 0, Latencies = lats\<rparr>"

section \<open>Properties of the benchmark engine\<close>

subsection \<open>The workers against the sequential reference\<close>

lemma count_events_append: "count_events P (xs @ ys) = count_events P xs + count_events P ys"
  by (simp add: count_events_def)

lemma count_events_Nil: "count_events P [] = 0"
  by (simp add: count_events_def)

lemma replay_append:
  "replay strat values (cs @ [(wid, op)]) s =
     (case replay strat values cs s of
        (es, s') \<Rightarrow> (case answer strat (values ! wid) wid op s' of
                       (e, s'') \<Rightarrow> (es @ [e], s'')))"
  by (induction cs arbitrary: s) (auto split: prod.splits)

lemma answer_Read:
  "Type op = ReadOp \<Longrightarrow>
     answer strat v wid op s =
       (ReadEv wid (Operation.Key op) (fst (snd (fst (Read strat s (Operation.Key op)))))
                            (snd (snd (fst (Read strat s (Operation.Key op))))),
        snd (Read strat s (Operation.Key op)))"
  by (simp add: answer_def split: prod.splits)

lemma answer_Write:
  "Type op \<noteq> ReadOp \<Longrightarrow> Type op = WriteOp \<Longrightarrow>
     answer strat v wid op s =
       (WriteEv wid (Operation.Key op) v (fst (Write strat s (Operation.Key op) v)), snd (Write strat s (Operation.Key op) v))"
  by (simp add: answer_def split: prod.splits)

lemma answer_other:
  "Type op \<noteq> ReadOp \<Longrightarrow> Type op \<noteq> WriteOp \<Longrightarrow> answer strat v wid op s = (NoCallEv wid op, s)"
  by (simp add: answer_def)

lemma answer_event:
  assumes "answer strat v wid op s = (e, s')"
  shows "event_op e = op \<and> event_worker e = wid"
proof -
  have op: "op = \<lparr>Type = Type op, Operation.Key = Operation.Key op\<rparr>"
    by simp
  consider "Type op = ReadOp" | "Type op \<noteq> ReadOp" "Type op = WriteOp"
    | "Type op \<noteq> ReadOp" "Type op \<noteq> WriteOp"
    by blast
  then show ?thesis
  proof cases
    case 1
    from assms answer_Read [OF 1, of strat v wid s] op 1 show ?thesis
      by (metis event_op.simps(1) event_worker.simps(1) fst_conv)
  next
    case 2
    from assms answer_Write [OF 2, of strat v wid s] op 2 show ?thesis
      by (metis event_op.simps(2) event_worker.simps(2) fst_conv)
  next
    case 3
    from assms answer_other [OF 3, of strat v wid s] show ?thesis
      by auto
  qed
qed

lemma worker_turn_answer:
  assumes "answer strat v wid op (st w) = (e, s')"
  shows "worker_turn strat wid v lat op w =
           w\<lparr>st := s',
             res := (res w)\<lparr>TotalHits := TotalHits (res w) + count_events is_hit [e],
                            TotalMisses := TotalMisses (res w) + count_events is_miss [e],
                            TotalWrites := TotalWrites (res w) + count_events is_write [e],
                            TotalErrors := TotalErrors (res w) + count_events is_error [e]\<rparr>,
             latencyChan := latencyChan w @ [lat],
             events := events w @ [e]\<rparr>"
proof -
  consider "Type op = ReadOp" | "Type op \<noteq> ReadOp" "Type op = WriteOp"
    | "Type op \<noteq> ReadOp" "Type op \<noteq> WriteOp"
    by blast
  then show ?thesis
  proof cases
    case 1
    obtain val hit err s2 where rd: "Read strat (st w) (Operation.Key op) = ((val, hit, err), s2)"
      by (metis prod.exhaust)
    with assms 1 have e: "e = ReadEv wid (Operation.Key op) hit err" "s' = s2"
      by (simp_all add: answer_def)
    show ?thesis
      unfolding e by (cases err; cases hit) (simp_all add: worker_turn_def 1 rd count_events_def Let_def)
  next
    case 2
    obtain err s2 where wr: "Write strat (st w) (Operation.Key op) v = (err, s2)"
      by (metis prod.exhaust)
    with assms 2 have e: "e = WriteEv wid (Operation.Key op) v err" "s' = s2"
      by (simp_all add: answer_def)
    show ?thesis
      unfolding e using 2 by (cases err) (simp_all add: worker_turn_def wr count_events_def Let_def)
  next
    case 3
    with assms have e: "e = NoCallEv wid op" "s' = st w"
      by (simp_all add: answer_def)
    show ?thesis
      unfolding e using 3 by (simp add: worker_turn_def count_events_def Let_def)
  qed
qed

lemma held_Cons: "held (h # hs) = (case h of None \<Rightarrow> [] | Some op \<Rightarrow> [op]) @ held hs"
  by (simp add: held_def)

lemma held_Nil: "held [] = []"
  by (simp add: held_def)

lemma held_update_None:
  "i < length hs \<Longrightarrow> hs ! i = Some op \<Longrightarrow> mset (held (hs[i := None])) + {#op#} = mset (held hs)"
proof (induction hs arbitrary: i)
  case Nil
  then show ?case by simp
next
  case (Cons h hs)
  show ?case
  proof (cases i)
    case 0
    with Cons.prems show ?thesis by (simp add: held_Cons)
  next
    case (Suc j)
    with Cons.prems Cons.IH [of j] show ?thesis
      by (simp add: held_Cons)
  qed
qed

lemma held_update_Some:
  "i < length hs \<Longrightarrow> hs ! i = None \<Longrightarrow> mset (held (hs[i := Some op])) = mset (held hs) + {#op#}"
proof (induction hs arbitrary: i)
  case Nil
  then show ?case by simp
next
  case (Cons h hs)
  show ?case
  proof (cases i)
    case 0
    with Cons.prems show ?thesis by (simp add: held_Cons)
  next
    case (Suc j)
    with Cons.prems Cons.IH [of j] show ?thesis
      by (simp add: held_Cons)
  qed
qed

lemma held_all_None: "\<forall>i < length hs. hs ! i = None \<Longrightarrow> held hs = []"
proof (induction hs)
  case Nil
  show ?case by (simp add: held_Nil)
next
  case (Cons h hs)
  from Cons.prems have "h = None" by auto
  moreover from Cons.prems have "\<forall>i < length hs. hs ! i = None" by auto
  ultimately show ?case using Cons.IH by (simp add: held_Cons)
qed

lemma calls_of_append: "calls_of (xs @ ys) = calls_of xs @ calls_of ys"
  by (simp add: calls_of_def)

lemma worker_step_inv:
  assumes inv: "run_inv strat values s1 r0 wl w" and wid: "wid < length values"
  shows "run_inv strat values s1 r0 wl (worker_step strat E values wid w)"
proof -
  from inv have len: "length (holding w) = length values"
    and ms: "mset (map event_op (events w)) + mset (held (holding w)) + mset (opsChan w) = mset wl"
    and rp: "replay strat values (calls_of (events w)) s1 = (events w, st w)"
    and wk: "list_all (\<lambda>e. event_worker e < length values) (events w)"
    and lt: "length (latencyChan w) = length (events w)"
    and rs: "res w = r0\<lparr>TotalHits := TotalHits r0 + count_events is_hit (events w),
                     TotalMisses := TotalMisses r0 + count_events is_miss (events w),
                     TotalWrites := TotalWrites r0 + count_events is_write (events w),
                     TotalErrors := TotalErrors r0 + count_events is_error (events w)\<rparr>"
    by (simp_all add: run_inv_def)
  show ?thesis
  proof (cases "holding w ! wid")
    case (Some op)
    let ?w = "w\<lparr>holding := (holding w)[wid := None]\<rparr>"
    obtain e s' where an: "answer strat (values ! wid) wid op (st w) = (e, s')"
      by (metis prod.exhaust)
    then have an': "answer strat (values ! wid) wid op (st ?w) = (e, s')"
      by simp
    from answer_event [OF an] have ev: "event_op e = op" "event_worker e = wid"
      by simp_all
    have step: "worker_step strat E values wid w =
        ?w\<lparr>st := s',
           res := (res ?w)\<lparr>TotalHits := TotalHits (res ?w) + count_events is_hit [e],
                            TotalMisses := TotalMisses (res ?w) + count_events is_miss [e],
                            TotalWrites := TotalWrites (res ?w) + count_events is_write [e],
                            TotalErrors := TotalErrors (res ?w) + count_events is_error [e]\<rparr>,
           latencyChan := latencyChan ?w @ [latency E (length (latencyChan w))],
           events := events ?w @ [e]\<rparr>"
      using worker_turn_answer [OF an', of "latency E (length (latencyChan w))"]
      by (simp add: worker_step_def Some)
    have h: "mset (held ((holding w)[wid := None])) + {#op#} = mset (held (holding w))"
      using held_update_None [of wid "holding w" op] wid len Some by simp
    have ms': "mset (map event_op (events w @ [e])) + mset (held ((holding w)[wid := None]))
                 + mset (opsChan w) = mset wl"
      using ms ev(1) by (simp add: h [symmetric] ac_simps)
    have rp': "replay strat values (calls_of (events w @ [e])) s1 = (events w @ [e], s')"
      using replay_append [of strat "values" "calls_of (events w)" wid op s1] rp an ev
      by (simp add: calls_of_append) (simp add: calls_of_def)
    show ?thesis
      unfolding step run_inv_def
      using len ms' rp' wk lt ev(2) wid
      by (simp add: rs count_events_append)
  next
    case None
    show ?thesis
    proof (cases "opsChan w")
      case Nil
      with None have "worker_step strat E values wid w = w"
        by (simp add: worker_step_def)
      with inv show ?thesis by simp
    next
      case (Cons op rest)
      with None have step: "worker_step strat E values wid w =
          w\<lparr>opsChan := rest, holding := (holding w)[wid := Some op]\<rparr>"
        by (simp add: worker_step_def)
      have h: "mset (held ((holding w)[wid := Some op])) = mset (held (holding w)) + {#op#}"
        using held_update_Some [of wid "holding w" op] wid len None by simp
      show ?thesis
        unfolding step run_inv_def
        using len ms rp wk lt h Cons
        by (simp add: rs ac_simps)
    qed
  qed
qed

lemma run_schedule_inv:
  assumes "values \<noteq> []"
  shows "run_inv strat values s1 r0 wl w \<Longrightarrow>
           run_inv strat values s1 r0 wl (run_schedule strat E values is w)"
proof (induction "is" arbitrary: w)
  case Nil
  then show ?case by simp
next
  case (Cons i "is")
  from assms have "i mod length values < length values"
    by simp
  from worker_step_inv [OF Cons.prems this, of E] Cons.IH show ?case
    by simp
qed

lemma worker_step_runs:
  assumes "holding w ! wid = Some op"
  shows "opsChan (worker_step strat E values wid w) = opsChan w
     \<and> holding (worker_step strat E values wid w) = (holding w)[wid := None]"
proof -
  let ?w = "w\<lparr>holding := (holding w)[wid := None]\<rparr>"
  obtain e s' where "answer strat (values ! wid) wid op (st ?w) = (e, s')"
    by (metis prod.exhaust)
  from worker_turn_answer [OF this, of "latency E (length (latencyChan w))"] assms
  show ?thesis
    by (simp add: worker_step_def)
qed

lemma worker_step_receives:
  assumes "holding w ! wid = None" and "opsChan w = op # rest"
  shows "opsChan (worker_step strat E values wid w) = rest
     \<and> holding (worker_step strat E values wid w) = (holding w)[wid := Some op]"
  using assms by (simp add: worker_step_def)

lemma worker_step_over:
  assumes "holding w ! wid = None" and "opsChan w = []"
  shows "worker_step strat E values wid w = w"
  using assms by (simp add: worker_step_def)

lemma worker_step_empty_queue:
  assumes "opsChan w = []"
  shows "opsChan (worker_step strat E values wid w) = []
     \<and> holding (worker_step strat E values wid w) = (holding w)[wid := None]"
proof (cases "holding w ! wid")
  case None
  then have "(holding w)[wid := None] = holding w"
    by (metis list_update_id)
  with worker_step_over [OF None assms, of strat E "values"] assms show ?thesis
    by simp
next
  case (Some op)
  from worker_step_runs [OF Some, of strat E "values"] assms show ?thesis
    by simp
qed

lemma run_schedule_append:
  "run_schedule strat E values (xs @ ys) w =
     run_schedule strat E values ys (run_schedule strat E values xs w)"
  by (induction xs arbitrary: w) simp_all

lemma drain_by_worker_0:
  assumes "0 < length (holding w)"
  shows "opsChan (run_schedule strat E values (replicate (2 * length (opsChan w) + 1) 0) w) = []
     \<and> holding (run_schedule strat E values (replicate (2 * length (opsChan w) + 1) 0) w)
         = (holding w)[0 := None]"
  using assms
proof (induction q \<equiv> "opsChan w" arbitrary: w)
  case Nil
  from worker_step_empty_queue [of w strat E "values" 0] Nil show ?case
    by simp
next
  case (Cons op rest)
  let ?w1 = "worker_step strat E values 0 w"
  let ?w2 = "worker_step strat E values 0 ?w1"
  have q: "opsChan w = op # rest"
    using Cons.hyps(2) by simp
  have two: "opsChan ?w2 = rest \<and> (holding ?w2)[0 := None] = (holding w)[0 := None]
               \<and> 0 < length (holding ?w2)"
  proof (cases "holding w ! 0")
    case None
    from worker_step_receives [OF None q, of strat E "values"]
    have 1: "opsChan ?w1 = rest" "holding ?w1 = (holding w)[0 := Some op]"
      by simp_all
    with Cons.prems have "holding ?w1 ! 0 = Some op"
      by simp
    from worker_step_runs [OF this, of strat E "values"] 1 Cons.prems show ?thesis
      by simp
  next
    case (Some op')
    from worker_step_runs [OF Some, of strat E "values"] q
    have 1: "opsChan ?w1 = op # rest" "holding ?w1 = (holding w)[0 := None]"
      by simp_all
    with Cons.prems have "holding ?w1 ! 0 = None"
      by simp
    from worker_step_receives [OF this 1(1), of strat E "values"] 1 Cons.prems show ?thesis
      by simp
  qed
  have sch: "replicate (2 * length (opsChan w) + 1) (0::nat)
               = 0 # 0 # replicate (2 * length rest + 1) 0"
    by (simp add: q)
  from two have "rest = opsChan ?w2" and "0 < length (holding ?w2)"
    by simp_all
  from Cons.hyps(1) [OF this] two show ?case
    unfolding sch by simp
qed

lemma finish_others:
  assumes "opsChan w = []" and "\<forall>i \<in> set is. i < length values"
    and "length (holding w) = length values"
  shows "opsChan (run_schedule strat E values is w) = []
     \<and> length (holding (run_schedule strat E values is w)) = length values
     \<and> (\<forall>j < length values. holding (run_schedule strat E values is w) ! j
            = (if j \<in> set is then None else holding w ! j))"
  using assms
proof (induction "is" arbitrary: w)
  case Nil
  then show ?case by simp
next
  case (Cons i "is")
  let ?w1 = "worker_step strat E values i w"
  from Cons.prems have i: "i < length values" "i mod length values = i"
    by simp_all
  from worker_step_empty_queue [OF Cons.prems(1), of strat E "values" i]
  have 1: "opsChan ?w1 = []" "holding ?w1 = (holding w)[i := None]"
    by simp_all
  from Cons.prems have rest: "\<forall>i \<in> set is. i < length values"
    by simp
  from 1 Cons.prems have len: "length (holding ?w1) = length values"
    by simp
  from Cons.IH [OF 1(1) rest len] 1 i Cons.prems(3) show ?case
    by (auto simp: nth_list_update)
qed

lemma workers_finish:
  assumes ne: "values \<noteq> []" and len: "length (holding w) = length values"
    and len1: "length (holding (run_schedule strat E values (sched E) w)) = length values"
  shows "opsChan (workers strat E values w) = [] \<and> held (holding (workers strat E values w)) = []"
proof -
  let ?w1 = "run_schedule strat E values (sched E) w"
  let ?w2 = "run_schedule strat E values (replicate (2 * length (opsChan ?w1) + 1) 0) ?w1"
  let ?w3 = "run_schedule strat E values [1..<length values] ?w2"
  have w3: "workers strat E values w = ?w3"
    by (simp add: workers_def Let_def run_schedule_append)
  from ne len1 have pos: "0 < length (holding ?w1)"
    by simp
  from drain_by_worker_0 [OF pos, of strat E "values"]
  have 2: "opsChan ?w2 = []" "holding ?w2 = (holding ?w1)[0 := None]"
    by simp_all
  from 2 len1 have len2: "length (holding ?w2) = length values"
    by simp
  have ids: "\<forall>i \<in> set [1..<length values]. i < length values"
    by simp
  from finish_others [OF 2(1) ids len2, of strat E]
  have 3: "opsChan ?w3 = []" "length (holding ?w3) = length values"
    "\<forall>j < length values. holding ?w3 ! j
            = (if j \<in> set [1..<length values] then None else holding ?w2 ! j)"
    by simp_all
  have "\<forall>j < length (holding ?w3). holding ?w3 ! j = None"
  proof (intro allI impI)
    fix j assume "j < length (holding ?w3)"
    with 3(2) have j: "j < length values" by simp
    show "holding ?w3 ! j = None"
    proof (cases "j = 0")
      case True
      with 3(3) j 2(2) pos show ?thesis by simp
    next
      case False
      with 3(3) j show ?thesis by simp
    qed
  qed
  from held_all_None [OF this] 3(1) show ?thesis
    unfolding w3 by simp
qed

lemma workers_inv:
  assumes ne: "values \<noteq> []" and inv: "run_inv strat values s1 r0 wl w"
  shows "run_inv strat values s1 r0 wl (workers strat E values w)
     \<and> mset (map event_op (events (workers strat E values w))) = mset wl"
proof -
  have w': "workers strat E values w =
      run_schedule strat E values
        (replicate (2 * length (opsChan (run_schedule strat E values (sched E) w)) + 1) 0
           @ [1..<length values])
        (run_schedule strat E values (sched E) w)"
    by (simp add: workers_def Let_def)
  from run_schedule_inv [OF ne inv, of E "sched E"]
  have inv1: "run_inv strat values s1 r0 wl (run_schedule strat E values (sched E) w)" .
  from run_schedule_inv [OF ne inv1] have inv2: "run_inv strat values s1 r0 wl (workers strat E values w)"
    unfolding w' .
  from inv inv1 have "length (holding w) = length values"
    "length (holding (run_schedule strat E values (sched E) w)) = length values"
    by (simp_all add: run_inv_def)
  from workers_finish [OF ne this]
  have "opsChan (workers strat E values w) = []" "held (holding (workers strat E values w)) = []"
    by simp_all
  with inv2 have "mset (map event_op (events (workers strat E values w))) = mset wl"
    by (simp add: run_inv_def)
  with inv2 show ?thesis by simp
qed

subsection \<open>The run\<close>

lemma those_map_Some:
  "those (map f xs) = Some ys \<Longrightarrow>
     length ys = length xs \<and> (\<forall>i < length xs. f (xs ! i) = Some (ys ! i))"
proof (induction xs arbitrary: ys)
  case Nil
  then show ?case by simp
next
  case (Cons x xs)
  from Cons.prems obtain y ys' where y: "f x = Some y" "those (map f xs) = Some ys'" "ys = y # ys'"
    by (auto split: option.splits)
  from Cons.IH [OF y(2)] y(1,3) show ?case
    by (auto simp: nth_Cons split: nat.splits)
qed

lemma those_map_defined:
  "(\<forall>x \<in> set xs. f x \<noteq> None) \<Longrightarrow> those (map f xs) \<noteq> None"
  by (induction xs) (auto split: option.splits)

lemma worker_values_Some:
  assumes "worker_values vsize E c = Some vals"
  shows "length vals = nat c \<and> (\<forall>i < nat c. generateValue vsize (entropy E i) = Some (vals ! i))"
  using those_map_Some [OF assms [unfolded worker_values_def]] by simp

lemma worker_values_defined:
  assumes "0 < c \<longrightarrow> 0 \<le> vsize"
  shows "\<exists>vals. worker_values vsize E c = Some vals"
proof -
  have "\<forall>wid \<in> set [0..<nat c]. generateValue vsize (entropy E wid) \<noteq> None"
    using assms by (auto simp: generateValue_def)
  from those_map_defined [OF this] show ?thesis
    by (auto simp: worker_values_def)
qed

lemma calculateFinalMetrics_fields:
  "TotalHits (calculateFinalMetrics r) = TotalHits r"
  "TotalMisses (calculateFinalMetrics r) = TotalMisses r"
  "TotalWrites (calculateFinalMetrics r) = TotalWrites r"
  "TotalErrors (calculateFinalMetrics r) = TotalErrors r"
  "TotalOperations (calculateFinalMetrics r) = TotalOperations r"
  "Latencies (calculateFinalMetrics r) = Latencies r"
  "StrategyName (calculateFinalMetrics r) = StrategyName r"
  "TotalDuration (calculateFinalMetrics r) = TotalDuration r"
  by (simp_all add: calculateFinalMetrics_def Let_def)

lemma calculateFinalMetrics_HitRate:
  "HitRate (calculateFinalMetrics r) =
     (if 0 < TotalHits r + TotalMisses r
      then fdiv (float64_of_int (TotalHits r)) (float64_of_int (TotalHits r + TotalMisses r))
      else HitRate r)"
  by (simp add: calculateFinalMetrics_def Let_def)

lemma Run_Init_error:
  assumes "Init (strategy r) s0 = (Some e, s1)"
  shows "Run r E s0 =
           Some ((result r, Some (Wrapped ''failed to initialize strategy: '' e)),
                 \<lparr>st = s1, res = result r, opsChan = [], holding = [], latencyChan = [],
                  events = []\<rparr>)"
  using assms by (simp add: Run_def)

lemma run_inv_start:
  "run_inv strat values s1 r0 wl
     \<lparr>st = s1, res = r0, opsChan = wl, holding = replicate (length values) None,
      latencyChan = [], events = []\<rparr>"
proof -
  have "held (replicate (length values) None) = []"
    by (rule held_all_None) simp
  then show ?thesis
    by (simp add: run_inv_def calls_of_def count_events_Nil)
qed

lemma Run_Init_ok:
  assumes init: "Init (strategy r) s0 = (None, s1)"
    and run: "Run r E s0 = Some ((rr, err), w')"
  shows "err = None \<and> 0 \<le> concurrency r \<and> res w' = rr
     \<and> (\<exists>vals s2 lats. worker_values (valueSizeBytes r) E (concurrency r) = Some vals
           \<and> replay (strategy r) vals (calls_of (events w')) s1 = (events w', s2)
           \<and> st w' = snd (Close (strategy r) s2)
           \<and> list_all (\<lambda>e. event_worker e < nat (concurrency r)) (events w')
           \<and> (0 < concurrency r \<longrightarrow> mset (map event_op (events w')) = mset (workload r))
           \<and> (concurrency r = 0 \<longrightarrow> events w' = [])
           \<and> length lats = length (events w')
           \<and> rr = calculateFinalMetrics
                ((result r)\<lparr>TotalHits := TotalHits (result r) + count_events is_hit (events w'),
                            TotalMisses := TotalMisses (result r) + count_events is_miss (events w'),
                            TotalWrites := TotalWrites (result r) + count_events is_write (events w'),
                            TotalErrors := TotalErrors (result r) + count_events is_error (events w'),
                            TotalDuration := elapsed E,
                            TotalOperations := int (length (workload r)),
                            Latencies := Latencies (result r) @ lats\<rparr>))"
proof -
  from init run have conc: "0 \<le> concurrency r"
    by (auto simp: Run_def Let_def split: if_splits)
  from init run conc obtain vals where
    vals: "worker_values (valueSizeBytes r) E (concurrency r) = Some vals"
    by (auto simp: Run_def Let_def split: option.splits)
  from worker_values_Some [OF vals] have len: "length vals = nat (concurrency r)"
    by simp
  define w1 where "w1 = \<lparr>st = s1, res = result r, opsChan = workload r,
      holding = replicate (length vals) None, latencyChan = [], events = []\<rparr>"
  define w2 where "w2 = (if concurrency r = 0 then w1 else workers (strategy r) E vals w1)"
  define r3 where "r3 = calculateFinalMetrics
      ((res w2)\<lparr>TotalDuration := elapsed E, TotalOperations := int (length (workload r)),
                Latencies := Latencies (res w2) @ latencyChan w2\<rparr>)"
  have out: "rr = r3" "err = None" "events w' = events w2" "res w' = r3"
    "st w' = snd (Close (strategy r) (st w2))"
    using init run conc vals
    by (auto simp: Run_def Let_def w1_def w2_def r3_def len split: prod.splits)
  have inv1: "run_inv (strategy r) vals s1 (result r) (workload r) w1"
    unfolding w1_def by (rule run_inv_start)
  have inv2: "run_inv (strategy r) vals s1 (result r) (workload r) w2"
    and all: "0 < concurrency r \<longrightarrow> mset (map event_op (events w2)) = mset (workload r)"
    and none: "concurrency r = 0 \<longrightarrow> events w2 = []"
  proof -
    show "run_inv (strategy r) vals s1 (result r) (workload r) w2"
    proof (cases "concurrency r = 0")
      case True
      with inv1 show ?thesis by (simp add: w2_def)
    next
      case False
      with conc len have "vals \<noteq> []" by auto
      from workers_inv [OF this inv1, of E] False show ?thesis
        by (simp add: w2_def)
    qed
    show "0 < concurrency r \<longrightarrow> mset (map event_op (events w2)) = mset (workload r)"
    proof
      assume pos: "0 < concurrency r"
      with len have "vals \<noteq> []" by auto
      from workers_inv [OF this inv1, of E] pos show "mset (map event_op (events w2)) = mset (workload r)"
        by (simp add: w2_def)
    qed
    show "concurrency r = 0 \<longrightarrow> events w2 = []"
      by (simp add: w2_def w1_def)
  qed
  from inv2 have rp: "replay (strategy r) vals (calls_of (events w2)) s1 = (events w2, st w2)"
    and wk: "list_all (\<lambda>e. event_worker e < length vals) (events w2)"
    and lt: "length (latencyChan w2) = length (events w2)"
    and rs: "res w2 = (result r)\<lparr>TotalHits := TotalHits (result r) + count_events is_hit (events w2),
                     TotalMisses := TotalMisses (result r) + count_events is_miss (events w2),
                     TotalWrites := TotalWrites (result r) + count_events is_write (events w2),
                     TotalErrors := TotalErrors (result r) + count_events is_error (events w2)\<rparr>"
    by (simp_all add: run_inv_def)
  have rr: "rr = calculateFinalMetrics
                ((result r)\<lparr>TotalHits := TotalHits (result r) + count_events is_hit (events w'),
                            TotalMisses := TotalMisses (result r) + count_events is_miss (events w'),
                            TotalWrites := TotalWrites (result r) + count_events is_write (events w'),
                            TotalErrors := TotalErrors (result r) + count_events is_error (events w'),
                            TotalDuration := elapsed E,
                            TotalOperations := int (length (workload r)),
                            Latencies := Latencies (result r) @ latencyChan w2\<rparr>)"
    unfolding out(1) r3_def rs out(3) by simp
  have ex: "\<exists>vals s2 lats. worker_values (valueSizeBytes r) E (concurrency r) = Some vals
           \<and> replay (strategy r) vals (calls_of (events w')) s1 = (events w', s2)
           \<and> st w' = snd (Close (strategy r) s2)
           \<and> list_all (\<lambda>e. event_worker e < nat (concurrency r)) (events w')
           \<and> (0 < concurrency r \<longrightarrow> mset (map event_op (events w')) = mset (workload r))
           \<and> (concurrency r = 0 \<longrightarrow> events w' = [])
           \<and> length lats = length (events w')
           \<and> rr = calculateFinalMetrics
                ((result r)\<lparr>TotalHits := TotalHits (result r) + count_events is_hit (events w'),
                            TotalMisses := TotalMisses (result r) + count_events is_miss (events w'),
                            TotalWrites := TotalWrites (result r) + count_events is_write (events w'),
                            TotalErrors := TotalErrors (result r) + count_events is_error (events w'),
                            TotalDuration := elapsed E,
                            TotalOperations := int (length (workload r)),
                            Latencies := Latencies (result r) @ lats\<rparr>)"
    apply (rule exI [of _ vals])
    apply (rule exI [of _ "st w2"])
    apply (rule exI [of _ "latencyChan w2"])
    using vals rp wk lt all none rr out(3,5) len
    apply simp
    done
  with out conc show ?thesis
    by simp
qed

lemma Run_returns:
  assumes "Init (strategy r) s0 = (None, s1)" and "0 \<le> concurrency r"
    and "0 < concurrency r \<longrightarrow> 0 \<le> valueSizeBytes r"
  shows "\<exists>rr w'. Run r E s0 = Some ((rr, None), w')"
proof -
  from worker_values_defined [OF assms(3), of E] obtain vals where
    "worker_values (valueSizeBytes r) E (concurrency r) = Some vals"
    by blast
  with assms(1,2) show ?thesis
    by (simp add: Run_def Let_def split: prod.splits)
qed

subsection \<open>Runs of the stub strategy, evaluated\<close>

text \<open>
  Four runs with a strategy that initialises: the stub workload under the alternating
  scheduler, the racing workload under the scheduler where the workers overtake each
  other, the workload with an operation of a third type on one worker, and the empty
  workload; and the run of the strategy that refuses to initialise.
\<close>

lemma Run_unfold:
  assumes "Init (strategy r) s0 = (None, s1)" and "0 < concurrency r"
    and "worker_values (valueSizeBytes r) E (concurrency r) = Some vals"
    and "workers (strategy r) E vals
           \<lparr>st = s1, res = result r, opsChan = workload r,
            holding = replicate (nat (concurrency r)) None, latencyChan = [], events = []\<rparr> = w2"
    and "Close (strategy r) (st w2) = (ce, s2)"
    and "calculateFinalMetrics
           ((res w2)\<lparr>TotalDuration := elapsed E, TotalOperations := int (length (workload r)),
                     Latencies := Latencies (res w2) @ latencyChan w2\<rparr>) = r3"
  shows "Run r E s0 = Some ((r3, None), w2\<lparr>st := s2, res := r3, latencyChan := []\<rparr>)"
  using assms by (simp add: Run_def Let_def)

lemma stub_values:
  "worker_values 1 stub_env 2 = Some [''ab'', ''ab'']"
  "worker_values 1 racing_env 2 = Some [''ab'', ''ab'']"
  "worker_values 1 stub_env 1 = Some [''ab'']"
  by (simp_all add: worker_values_def stub_env_def racing_env_def generateValue_def Sprintf_x_def
      hex_byte_def hex_digit_def upt_rec)

lemma stub_workers:
  "workers stub_strategy stub_env [''ab'', ''ab'']
     \<lparr>st = [], res = result (NewRunner stub_strategy stub_workload 2 1),
      opsChan = stub_workload, holding = [None, None], latencyChan = [], events = []\<rparr>
   = \<lparr>st = [],
      res = (result (NewRunner stub_strategy stub_workload 2 1))
              \<lparr>TotalHits := 1, TotalMisses := 1, TotalWrites := 1, TotalErrors := 1\<rparr>,
      opsChan = [], holding = [None, None],
      latencyChan = [5, 5, 5, 5],
      events = [ReadEv 0 ''a'' False None, ReadEv 1 ''a'' True None,
                WriteEv 0 ''a'' ''ab'' None,
                ReadEv 1 ''down'' False (Some (ErrorString ''unreachable''))]\<rparr>"
  by (simp add: workers_def stub_env_def stub_workload_def stub_strategy_def
      worker_step_def worker_turn_def NewRunner_def ReadOp_def WriteOp_def)

lemma racing_workers:
  "workers stub_strategy racing_env [''ab'', ''ab'']
     \<lparr>st = [], res = result (NewRunner stub_strategy racing_workload 2 1),
      opsChan = racing_workload, holding = [None, None], latencyChan = [], events = []\<rparr>
   = \<lparr>st = [''a''],
      res = (result (NewRunner stub_strategy racing_workload 2 1))
              \<lparr>TotalHits := 1, TotalMisses := 1, TotalWrites := 1, TotalErrors := 1\<rparr>,
      opsChan = [], holding = [None, None],
      latencyChan = [5, 5, 5, 5],
      events = [WriteEv 1 ''a'' ''ab'' None, ReadEv 0 ''a'' False None,
                WriteEv 0 ''down'' ''ab'' (Some (ErrorString ''unreachable'')),
                ReadEv 1 ''a'' True None]\<rparr>"
  by (simp add: workers_def racing_env_def stub_env_def racing_workload_def stub_strategy_def
      worker_step_def worker_turn_def NewRunner_def ReadOp_def WriteOp_def)


lemma empty_workers:
  "workers stub_strategy stub_env [''ab'', ''ab'']
     \<lparr>st = [], res = result (NewRunner stub_strategy [] 2 1),
      opsChan = [], holding = [None, None], latencyChan = [], events = []\<rparr>
   = \<lparr>st = [], res = result (NewRunner stub_strategy [] 2 1),
      opsChan = [], holding = [None, None], latencyChan = [], events = []\<rparr>"
  by (simp add: workers_def stub_env_def worker_step_def)

lemma stub_strategy_fields:
  "Init stub_strategy [] = (None, [])" "Close stub_strategy s = (None, s)"
  "Name stub_strategy = ''stub''"
  by (simp_all add: stub_strategy_def)

lemma stub_run:
  "Run (NewRunner stub_strategy stub_workload 2 1) stub_env [] =
     Some ((\<lparr>StrategyName = ''stub'', TotalOperations = 4, TotalHits = 1, TotalMisses = 1,
             TotalWrites = 1, TotalErrors = 1, TotalDuration = 10, HitRate = Finite (1 / 2),
             OpsPerSecond = Finite 400000000, Latencies = [5, 5, 5, 5]\<rparr>, None),
           \<lparr>st = [],
            res = \<lparr>StrategyName = ''stub'', TotalOperations = 4, TotalHits = 1, TotalMisses = 1,
             TotalWrites = 1, TotalErrors = 1, TotalDuration = 10, HitRate = Finite (1 / 2),
             OpsPerSecond = Finite 400000000, Latencies = [5, 5, 5, 5]\<rparr>,
            opsChan = [], holding = [None, None], latencyChan = [],
            events = [ReadEv 0 ''a'' False None, ReadEv 1 ''a'' True None,
                      WriteEv 0 ''a'' ''ab'' None,
                      ReadEv 1 ''down'' False (Some (ErrorString ''unreachable''))]\<rparr>)"
proof -
  let ?r = "NewRunner stub_strategy stub_workload 2 1"
  let ?w2 = "\<lparr>st = [],
      res = (result ?r)\<lparr>TotalHits := 1, TotalMisses := 1, TotalWrites := 1, TotalErrors := 1\<rparr>,
      opsChan = [], holding = [None, None],
      latencyChan = [5, 5, 5, 5],
      events = [ReadEv 0 ''a'' False None, ReadEv 1 ''a'' True None,
                      WriteEv 0 ''a'' ''ab'' None,
                      ReadEv 1 ''down'' False (Some (ErrorString ''unreachable''))]\<rparr>"
  have sel: "strategy ?r = stub_strategy" "workload ?r = stub_workload" "concurrency ?r = 2"
    "valueSizeBytes ?r = 1"
    by (simp_all add: NewRunner_def)
  have rep: "replicate (nat 2) None = ([None, None] :: Operation option list)"
    by (simp add: numeral_2_eq_2)
  have init: "Init (strategy ?r) [] = (None, [])"
    by (simp add: sel stub_strategy_fields)
  have pos: "0 < concurrency ?r"
    by (simp add: sel)
  have vals: "worker_values (valueSizeBytes ?r) stub_env (concurrency ?r) = Some [''ab'', ''ab'']"
    by (simp add: sel stub_values)
  have wk: "workers (strategy ?r) stub_env [''ab'', ''ab'']
           \<lparr>st = [], res = result ?r, opsChan = workload ?r,
            holding = replicate (nat (concurrency ?r)) None, latencyChan = [], events = []\<rparr> = ?w2"
    unfolding sel rep by (rule stub_workers)
  have cl: "Close (strategy ?r) (st ?w2) = (None, [])"
    by (simp add: sel stub_strategy_fields)
  have m: "calculateFinalMetrics
           ((res ?w2)\<lparr>TotalDuration := elapsed stub_env,
                      TotalOperations := int (length (workload ?r)),
                      Latencies := Latencies (res ?w2) @ latencyChan ?w2\<rparr>) =
     \<lparr>StrategyName = ''stub'', TotalOperations = 4, TotalHits = 1, TotalMisses = 1,
             TotalWrites = 1, TotalErrors = 1, TotalDuration = 10, HitRate = Finite (1 / 2),
             OpsPerSecond = Finite 400000000, Latencies = [5, 5, 5, 5]\<rparr>"
    by (simp add: calculateFinalMetrics_def float64_of_int_def Seconds_def NewRunner_def
        stub_strategy_fields stub_env_def racing_env_def stub_workload_def racing_workload_def
        odd_workload_def)
  from Run_unfold [OF init pos vals wk cl m] show ?thesis
    by simp
qed

lemma racing_run:
  "Run (NewRunner stub_strategy racing_workload 2 1) racing_env [] =
     Some ((\<lparr>StrategyName = ''stub'', TotalOperations = 4, TotalHits = 1, TotalMisses = 1,
             TotalWrites = 1, TotalErrors = 1, TotalDuration = 10, HitRate = Finite (1 / 2),
             OpsPerSecond = Finite 400000000, Latencies = [5, 5, 5, 5]\<rparr>, None),
           \<lparr>st = [''a''],
            res = \<lparr>StrategyName = ''stub'', TotalOperations = 4, TotalHits = 1, TotalMisses = 1,
             TotalWrites = 1, TotalErrors = 1, TotalDuration = 10, HitRate = Finite (1 / 2),
             OpsPerSecond = Finite 400000000, Latencies = [5, 5, 5, 5]\<rparr>,
            opsChan = [], holding = [None, None], latencyChan = [],
            events = [WriteEv 1 ''a'' ''ab'' None, ReadEv 0 ''a'' False None,
                      WriteEv 0 ''down'' ''ab'' (Some (ErrorString ''unreachable'')),
                      ReadEv 1 ''a'' True None]\<rparr>)"
proof -
  let ?r = "NewRunner stub_strategy racing_workload 2 1"
  let ?w2 = "\<lparr>st = [''a''],
      res = (result ?r)\<lparr>TotalHits := 1, TotalMisses := 1, TotalWrites := 1, TotalErrors := 1\<rparr>,
      opsChan = [], holding = [None, None],
      latencyChan = [5, 5, 5, 5],
      events = [WriteEv 1 ''a'' ''ab'' None, ReadEv 0 ''a'' False None,
                      WriteEv 0 ''down'' ''ab'' (Some (ErrorString ''unreachable'')),
                      ReadEv 1 ''a'' True None]\<rparr>"
  have sel: "strategy ?r = stub_strategy" "workload ?r = racing_workload" "concurrency ?r = 2"
    "valueSizeBytes ?r = 1"
    by (simp_all add: NewRunner_def)
  have rep: "replicate (nat 2) None = ([None, None] :: Operation option list)"
    by (simp add: numeral_2_eq_2)
  have init: "Init (strategy ?r) [] = (None, [])"
    by (simp add: sel stub_strategy_fields)
  have pos: "0 < concurrency ?r"
    by (simp add: sel)
  have vals: "worker_values (valueSizeBytes ?r) racing_env (concurrency ?r) = Some [''ab'', ''ab'']"
    by (simp add: sel stub_values)
  have wk: "workers (strategy ?r) racing_env [''ab'', ''ab'']
           \<lparr>st = [], res = result ?r, opsChan = workload ?r,
            holding = replicate (nat (concurrency ?r)) None, latencyChan = [], events = []\<rparr> = ?w2"
    unfolding sel rep by (rule racing_workers)
  have cl: "Close (strategy ?r) (st ?w2) = (None, [''a''])"
    by (simp add: sel stub_strategy_fields)
  have m: "calculateFinalMetrics
           ((res ?w2)\<lparr>TotalDuration := elapsed racing_env,
                      TotalOperations := int (length (workload ?r)),
                      Latencies := Latencies (res ?w2) @ latencyChan ?w2\<rparr>) =
     \<lparr>StrategyName = ''stub'', TotalOperations = 4, TotalHits = 1, TotalMisses = 1,
             TotalWrites = 1, TotalErrors = 1, TotalDuration = 10, HitRate = Finite (1 / 2),
             OpsPerSecond = Finite 400000000, Latencies = [5, 5, 5, 5]\<rparr>"
    by (simp add: calculateFinalMetrics_def float64_of_int_def Seconds_def NewRunner_def
        stub_strategy_fields stub_env_def racing_env_def stub_workload_def racing_workload_def
        odd_workload_def)
  from Run_unfold [OF init pos vals wk cl m] show ?thesis
    by simp
qed


lemma empty_run:
  "Run (NewRunner stub_strategy [] 2 1) stub_env [] =
     Some ((\<lparr>StrategyName = ''stub'', TotalOperations = 0, TotalHits = 0, TotalMisses = 0,
             TotalWrites = 0, TotalErrors = 0, TotalDuration = 10, HitRate = Finite 0,
             OpsPerSecond = Finite 0, Latencies = []\<rparr>, None),
           \<lparr>st = [],
            res = \<lparr>StrategyName = ''stub'', TotalOperations = 0, TotalHits = 0, TotalMisses = 0,
             TotalWrites = 0, TotalErrors = 0, TotalDuration = 10, HitRate = Finite 0,
             OpsPerSecond = Finite 0, Latencies = []\<rparr>,
            opsChan = [], holding = [None, None], latencyChan = [],
            events = []\<rparr>)"
proof -
  let ?r = "NewRunner stub_strategy [] 2 1"
  let ?w2 = "\<lparr>st = [],
      res = (result ?r),
      opsChan = [], holding = [None, None],
      latencyChan = [],
      events = []\<rparr>"
  have sel: "strategy ?r = stub_strategy" "workload ?r = []" "concurrency ?r = 2"
    "valueSizeBytes ?r = 1"
    by (simp_all add: NewRunner_def)
  have rep: "replicate (nat 2) None = ([None, None] :: Operation option list)"
    by (simp add: numeral_2_eq_2)
  have init: "Init (strategy ?r) [] = (None, [])"
    by (simp add: sel stub_strategy_fields)
  have pos: "0 < concurrency ?r"
    by (simp add: sel)
  have vals: "worker_values (valueSizeBytes ?r) stub_env (concurrency ?r) = Some [''ab'', ''ab'']"
    by (simp add: sel stub_values)
  have wk: "workers (strategy ?r) stub_env [''ab'', ''ab'']
           \<lparr>st = [], res = result ?r, opsChan = workload ?r,
            holding = replicate (nat (concurrency ?r)) None, latencyChan = [], events = []\<rparr> = ?w2"
    unfolding sel rep by (rule empty_workers)
  have cl: "Close (strategy ?r) (st ?w2) = (None, [])"
    by (simp add: sel stub_strategy_fields)
  have m: "calculateFinalMetrics
           ((res ?w2)\<lparr>TotalDuration := elapsed stub_env,
                      TotalOperations := int (length (workload ?r)),
                      Latencies := Latencies (res ?w2) @ latencyChan ?w2\<rparr>) =
     \<lparr>StrategyName = ''stub'', TotalOperations = 0, TotalHits = 0, TotalMisses = 0,
             TotalWrites = 0, TotalErrors = 0, TotalDuration = 10, HitRate = Finite 0,
             OpsPerSecond = Finite 0, Latencies = []\<rparr>"
    by (simp add: calculateFinalMetrics_def float64_of_int_def Seconds_def NewRunner_def
        stub_strategy_fields stub_env_def racing_env_def stub_workload_def racing_workload_def
        odd_workload_def)
  from Run_unfold [OF init pos vals wk cl m] show ?thesis
    by simp
qed

lemma refusing_run:
  "Run (NewRunner refusing_strategy stub_workload 2 1) stub_env [] =
     Some ((result (NewRunner refusing_strategy stub_workload 2 1),
            Some (Wrapped ''failed to initialize strategy: '' (ErrorString ''refused''))),
           \<lparr>st = [], res = result (NewRunner refusing_strategy stub_workload 2 1),
            opsChan = [], holding = [], latencyChan = [], events = []\<rparr>)"
  by (rule Run_Init_error) (simp add: NewRunner_def refusing_strategy_def)

subsection \<open>Accounting\<close>

lemma event_classes:
  "(if is_hit e then 1 else 0) + (if is_miss e then 1 else 0)
     + (if is_write e then 1 else 0) + (if is_error e then 1 else 0)
     + (if is_no_call e then 1 else 0) = (1::int)"
  "(if is_hit e then 1 else 0) + (if is_miss e then 1 else 0)
     = (if is_ok_read e then 1 else (0::int))"
  by (cases e; auto)+

lemma count_events_classes:
  "count_events is_hit evs + count_events is_miss evs + count_events is_write evs
     + count_events is_error evs + count_events is_no_call evs = int (length evs)"
  "count_events is_hit evs + count_events is_miss evs = count_events is_ok_read evs"
proof (induction evs)
  case Nil
  { case 1 show ?case by (simp add: count_events_def) }
  { case 2 show ?case by (simp add: count_events_def) }
next
  case (Cons e evs)
  { case 1
    from Cons(1) event_classes(1) [of e] show ?case
      by (simp add: count_events_def split: if_splits) }
  { case 2
    from Cons(2) event_classes(2) [of e] show ?case
      by (simp add: count_events_def split: if_splits) }
qed







subsection \<open>Errors\<close>

lemma worker_turn_Read_error:
  assumes "Type op = ReadOp"
    and "snd (snd (fst (Read strat (st w) (Operation.Key op)))) = Some e"
  shows "res (worker_turn strat wid v lat op w) = (res w)\<lparr>TotalErrors := TotalErrors (res w) + 1\<rparr>"
proof -
  obtain val hit s' where "Read strat (st w) (Operation.Key op) = ((val, hit, Some e), s')"
    using assms(2) by (cases "Read strat (st w) (Operation.Key op)") auto
  with assms(1) show ?thesis
    by (simp add: worker_turn_def Let_def)
qed

lemma worker_turn_Write_error:
  assumes "Type op = WriteOp"
    and "fst (Write strat (st w) (Operation.Key op) v) = Some e"
  shows "res (worker_turn strat wid v lat op w) = (res w)\<lparr>TotalErrors := TotalErrors (res w) + 1\<rparr>"
proof -
  obtain s' where "Write strat (st w) (Operation.Key op) v = (Some e, s')"
    using assms(2) by (cases "Write strat (st w) (Operation.Key op) v") auto
  with assms(1) show ?thesis
    by (simp add: worker_turn_def Let_def ReadOp_def WriteOp_def)
qed

text \<open>
  Claim C4. \<open>Run\<close> returns an error exactly when \<open>Init\<close> does. It then returns at once,
  with the result untouched, the strategy in the state \<open>Init\<close> left, no operation
  queued or held and an empty trace: no worker started. When \<open>Init\<close> succeeds (with at
  least one worker and a payload size that is not negative) \<open>Run\<close> returns without an
  error whatever the operations answer, under every scheduler: the operations of the
  trace are those of the workload, the trace is what asking the strategy these
  operations one after the other gives, and the counters are those of the events of
  each class. A Read or a Write that returns an error adds one to \<open>TotalErrors\<close> in the
  worker and to no other counter, and is an error, not a hit, a miss or a write, in
  the reference.
\<close>

theorem Run_fails_iff_Init_fails:
  "((\<exists>rr e w'. Run r E s0 = Some ((rr, Some e), w')) \<longleftrightarrow> fst (Init (strategy r) s0) \<noteq> None)
   \<and> (\<forall>e. fst (Init (strategy r) s0) = Some e \<longrightarrow>
          Run r E s0 =
            Some ((result r, Some (Wrapped ''failed to initialize strategy: '' e)),
                  \<lparr>st = snd (Init (strategy r) s0), res = result r,
                   opsChan = [], holding = [], latencyChan = [], events = []\<rparr>))
   \<and> (fst (Init (strategy r) s0) = None \<and> 0 < concurrency r \<and> 0 \<le> valueSizeBytes r \<longrightarrow>
          (\<exists>rr w' vals s2. Run r E s0 = Some ((rr, None), w')
             \<and> worker_values (valueSizeBytes r) E (concurrency r) = Some vals
             \<and> mset (map event_op (events w')) = mset (workload r)
             \<and> replay (strategy r) vals (calls_of (events w')) (snd (Init (strategy r) s0))
                 = (events w', s2)
             \<and> TotalErrors rr = TotalErrors (result r) + count_events is_error (events w')
             \<and> TotalHits rr = TotalHits (result r) + count_events is_hit (events w')
             \<and> TotalMisses rr = TotalMisses (result r) + count_events is_miss (events w')
             \<and> TotalWrites rr = TotalWrites (result r) + count_events is_write (events w')))
   \<and> (\<forall>wid v lat op w e.
          Type op = ReadOp \<and> snd (snd (fst (Read (strategy r) (st w) (Operation.Key op)))) = Some e \<longrightarrow>
          res (worker_turn (strategy r) wid v lat op w)
            = (res w)\<lparr>TotalErrors := TotalErrors (res w) + 1\<rparr>
          \<and> is_error (fst (answer (strategy r) v wid op (st w)))
          \<and> \<not> is_hit (fst (answer (strategy r) v wid op (st w)))
          \<and> \<not> is_miss (fst (answer (strategy r) v wid op (st w))))
   \<and> (\<forall>wid v lat op w e.
          Type op = WriteOp \<and> fst (Write (strategy r) (st w) (Operation.Key op) v) = Some e \<longrightarrow>
          res (worker_turn (strategy r) wid v lat op w)
            = (res w)\<lparr>TotalErrors := TotalErrors (res w) + 1\<rparr>
          \<and> is_error (fst (answer (strategy r) v wid op (st w)))
          \<and> \<not> is_write (fst (answer (strategy r) v wid op (st w))))"
proof -
  have p1: "(\<exists>rr e w'. Run r E s0 = Some ((rr, Some e), w')) \<longleftrightarrow> fst (Init (strategy r) s0) \<noteq> None"
  proof
    assume "\<exists>rr e w'. Run r E s0 = Some ((rr, Some e), w')"
    then obtain rr e w' where run: "Run r E s0 = Some ((rr, Some e), w')"
      by blast
    show "fst (Init (strategy r) s0) \<noteq> None"
    proof
      assume "fst (Init (strategy r) s0) = None"
      then have "Init (strategy r) s0 = (None, snd (Init (strategy r) s0))"
        by (metis prod.collapse)
      from Run_Init_ok [OF this run] show False by simp
    qed
  next
    assume "fst (Init (strategy r) s0) \<noteq> None"
    then obtain e where "Init (strategy r) s0 = (Some e, snd (Init (strategy r) s0))"
      by (metis not_Some_eq prod.collapse)
    from Run_Init_error [OF this] show "\<exists>rr e w'. Run r E s0 = Some ((rr, Some e), w')"
      by blast
  qed
  have p2: "\<forall>e. fst (Init (strategy r) s0) = Some e \<longrightarrow>
          Run r E s0 =
            Some ((result r, Some (Wrapped ''failed to initialize strategy: '' e)),
                  \<lparr>st = snd (Init (strategy r) s0), res = result r,
                   opsChan = [], holding = [], latencyChan = [], events = []\<rparr>)"
  proof (intro allI impI)
    fix e assume "fst (Init (strategy r) s0) = Some e"
    then have "Init (strategy r) s0 = (Some e, snd (Init (strategy r) s0))"
      by (metis prod.collapse)
    from Run_Init_error [OF this]
    show "Run r E s0 =
          Some ((result r, Some (Wrapped ''failed to initialize strategy: '' e)),
                \<lparr>st = snd (Init (strategy r) s0), res = result r,
                 opsChan = [], holding = [], latencyChan = [], events = []\<rparr>)" .
  qed
  have p3: "fst (Init (strategy r) s0) = None \<and> 0 < concurrency r \<and> 0 \<le> valueSizeBytes r \<longrightarrow>
          (\<exists>rr w' vals s2. Run r E s0 = Some ((rr, None), w')
             \<and> worker_values (valueSizeBytes r) E (concurrency r) = Some vals
             \<and> mset (map event_op (events w')) = mset (workload r)
             \<and> replay (strategy r) vals (calls_of (events w')) (snd (Init (strategy r) s0))
                 = (events w', s2)
             \<and> TotalErrors rr = TotalErrors (result r) + count_events is_error (events w')
             \<and> TotalHits rr = TotalHits (result r) + count_events is_hit (events w')
             \<and> TotalMisses rr = TotalMisses (result r) + count_events is_miss (events w')
             \<and> TotalWrites rr = TotalWrites (result r) + count_events is_write (events w'))"
  proof
    assume a: "fst (Init (strategy r) s0) = None \<and> 0 < concurrency r \<and> 0 \<le> valueSizeBytes r"
    then have init: "Init (strategy r) s0 = (None, snd (Init (strategy r) s0))"
      by (metis prod.collapse)
    from Run_returns [OF init, of E] a obtain rr w' where run: "Run r E s0 = Some ((rr, None), w')"
      by auto
    from Run_Init_ok [OF init run] a
    obtain vals s2 lats where vals: "worker_values (valueSizeBytes r) E (concurrency r) = Some vals"
      and rp: "replay (strategy r) vals (calls_of (events w')) (snd (Init (strategy r) s0))
                 = (events w', s2)"
      and ev: "mset (map event_op (events w')) = mset (workload r)"
      and rr: "rr = calculateFinalMetrics
                ((result r)\<lparr>TotalHits := TotalHits (result r) + count_events is_hit (events w'),
                            TotalMisses := TotalMisses (result r) + count_events is_miss (events w'),
                            TotalWrites := TotalWrites (result r) + count_events is_write (events w'),
                            TotalErrors := TotalErrors (result r) + count_events is_error (events w'),
                            TotalDuration := elapsed E,
                            TotalOperations := int (length (workload r)),
                            Latencies := Latencies (result r) @ lats\<rparr>)"
      by auto
    have f: "TotalErrors rr = TotalErrors (result r) + count_events is_error (events w')"
      "TotalHits rr = TotalHits (result r) + count_events is_hit (events w')"
      "TotalMisses rr = TotalMisses (result r) + count_events is_miss (events w')"
      "TotalWrites rr = TotalWrites (result r) + count_events is_write (events w')"
      unfolding rr calculateFinalMetrics_fields by simp_all
    show "\<exists>rr w' vals s2. Run r E s0 = Some ((rr, None), w')
             \<and> worker_values (valueSizeBytes r) E (concurrency r) = Some vals
             \<and> mset (map event_op (events w')) = mset (workload r)
             \<and> replay (strategy r) vals (calls_of (events w')) (snd (Init (strategy r) s0))
                 = (events w', s2)
             \<and> TotalErrors rr = TotalErrors (result r) + count_events is_error (events w')
             \<and> TotalHits rr = TotalHits (result r) + count_events is_hit (events w')
             \<and> TotalMisses rr = TotalMisses (result r) + count_events is_miss (events w')
             \<and> TotalWrites rr = TotalWrites (result r) + count_events is_write (events w')"
      using run vals ev rp f
      by (intro exI [of _ rr] exI [of _ w'] exI [of _ vals] exI [of _ s2]) simp
  qed
  have p4: "\<forall>wid v lat op w e.
          Type op = ReadOp \<and> snd (snd (fst (Read (strategy r) (st w) (Operation.Key op)))) = Some e \<longrightarrow>
          res (worker_turn (strategy r) wid v lat op w)
            = (res w)\<lparr>TotalErrors := TotalErrors (res w) + 1\<rparr>
          \<and> is_error (fst (answer (strategy r) v wid op (st w)))
          \<and> \<not> is_hit (fst (answer (strategy r) v wid op (st w)))
          \<and> \<not> is_miss (fst (answer (strategy r) v wid op (st w)))"
    by (auto simp: worker_turn_Read_error answer_def split: prod.splits)
  have p5: "\<forall>wid v lat op w e.
          Type op = WriteOp \<and> fst (Write (strategy r) (st w) (Operation.Key op) v) = Some e \<longrightarrow>
          res (worker_turn (strategy r) wid v lat op w)
            = (res w)\<lparr>TotalErrors := TotalErrors (res w) + 1\<rparr>
          \<and> is_error (fst (answer (strategy r) v wid op (st w)))
          \<and> \<not> is_write (fst (answer (strategy r) v wid op (st w)))"
    by (auto simp: worker_turn_Write_error answer_def ReadOp_def WriteOp_def split: prod.splits)
  show ?thesis
    by (intro conjI p1 p2 p3 p4 p5)
qed

theorem Run_fails_iff_Init_fails_witness:
  "Run (NewRunner refusing_strategy stub_workload 2 1) stub_env [] =
     Some ((result (NewRunner refusing_strategy stub_workload 2 1),
            Some (Wrapped ''failed to initialize strategy: '' (ErrorString ''refused''))),
           \<lparr>st = [], res = result (NewRunner refusing_strategy stub_workload 2 1),
            opsChan = [], holding = [], latencyChan = [], events = []\<rparr>)
   \<and> Run (NewRunner stub_strategy racing_workload 2 1) racing_env [] =
     Some ((\<lparr>StrategyName = ''stub'', TotalOperations = 4, TotalHits = 1, TotalMisses = 1,
             TotalWrites = 1, TotalErrors = 1, TotalDuration = 10, HitRate = Finite (1 / 2),
             OpsPerSecond = Finite 400000000, Latencies = [5, 5, 5, 5]\<rparr>, None),
           \<lparr>st = [''a''],
            res = \<lparr>StrategyName = ''stub'', TotalOperations = 4, TotalHits = 1, TotalMisses = 1,
             TotalWrites = 1, TotalErrors = 1, TotalDuration = 10, HitRate = Finite (1 / 2),
             OpsPerSecond = Finite 400000000, Latencies = [5, 5, 5, 5]\<rparr>,
            opsChan = [], holding = [None, None], latencyChan = [],
            events = [WriteEv 1 ''a'' ''ab'' None, ReadEv 0 ''a'' False None,
                      WriteEv 0 ''down'' ''ab'' (Some (ErrorString ''unreachable'')),
                      ReadEv 1 ''a'' True None]\<rparr>)
   \<and> replay stub_strategy [''ab'', ''ab'']
        [(1, \<lparr>Type = WriteOp, Operation.Key = ''a''\<rparr>), (0, \<lparr>Type = ReadOp, Operation.Key = ''a''\<rparr>),
         (0, \<lparr>Type = WriteOp, Operation.Key = ''down''\<rparr>), (1, \<lparr>Type = ReadOp, Operation.Key = ''a''\<rparr>)] []
       = ([WriteEv 1 ''a'' ''ab'' None, ReadEv 0 ''a'' False None,
           WriteEv 0 ''down'' ''ab'' (Some (ErrorString ''unreachable'')),
           ReadEv 1 ''a'' True None], [''a''])
   \<and> count_events is_error
        [WriteEv 1 ''a'' ''ab'' None, ReadEv 0 ''a'' False None,
         WriteEv 0 ''down'' ''ab'' (Some (ErrorString ''unreachable'')),
         ReadEv 1 ''a'' True None] = 1
   \<and> count_events is_write
        [WriteEv 1 ''a'' ''ab'' None, ReadEv 0 ''a'' False None,
         WriteEv 0 ''down'' ''ab'' (Some (ErrorString ''unreachable'')),
         ReadEv 1 ''a'' True None] = 1
   \<and> res (worker_turn stub_strategy 0 ''ab'' 5 \<lparr>Type = WriteOp, Operation.Key = ''down''\<rparr>
            \<lparr>st = [''a''], res = result (NewRunner stub_strategy racing_workload 2 1),
             opsChan = [], holding = [None, None], latencyChan = [], events = []\<rparr>)
       = (result (NewRunner stub_strategy racing_workload 2 1))\<lparr>TotalErrors := 1\<rparr>
   \<and> res (worker_turn stub_strategy 1 ''ab'' 5 \<lparr>Type = ReadOp, Operation.Key = ''down''\<rparr>
            \<lparr>st = [''a''], res = result (NewRunner stub_strategy racing_workload 2 1),
             opsChan = [], holding = [None, None], latencyChan = [], events = []\<rparr>)
       = (result (NewRunner stub_strategy racing_workload 2 1))\<lparr>TotalErrors := 1\<rparr>"
proof -
  let ?bad = "NewRunner refusing_strategy stub_workload 2 1"
  let ?good = "NewRunner stub_strategy racing_workload 2 1"
  let ?w = "\<lparr>st = [''a''], res = result ?good,
             opsChan = [], holding = [None, None], latencyChan = [], events = []\<rparr>"
  have bad: "fst (Init (strategy ?bad) []) = Some (ErrorString ''refused'')"
    "snd (Init (strategy ?bad) []) = []"
    by (simp_all add: NewRunner_def refusing_strategy_def)
  have good: "fst (Init (strategy ?good) []) = None" "snd (Init (strategy ?good) []) = []"
    "0 < concurrency ?good" "0 \<le> valueSizeBytes ?good"
    "workload ?good = racing_workload" "strategy ?good = stub_strategy"
    "concurrency ?good = 2" "valueSizeBytes ?good = 1"
    "TotalErrors (result ?good) = 0" "TotalWrites (result ?good) = 0"
    by (simp_all add: NewRunner_def stub_strategy_def)
  note inst = Run_fails_iff_Init_fails
  from inst [of ?bad stub_env "[]"]
  have first: "Run ?bad stub_env [] =
     Some ((result ?bad,
            Some (Wrapped ''failed to initialize strategy: '' (ErrorString ''refused''))),
           \<lparr>st = [], res = result ?bad,
            opsChan = [], holding = [], latencyChan = [], events = []\<rparr>)"
    using bad by simp
  from inst [of ?good racing_env "[]"] good
  obtain rr w' vals s2 where run: "Run ?good racing_env [] = Some ((rr, None), w')"
    and vals: "worker_values 1 racing_env 2 = Some vals"
    and rp: "replay stub_strategy vals (calls_of (events w')) [] = (events w', s2)"
    and cnt: "TotalErrors rr = count_events is_error (events w')"
      "TotalWrites rr = count_events is_write (events w')"
    by auto
  from run have rr: "rr = fst (fst (the (Run ?good racing_env [])))"
    and w': "w' = snd (the (Run ?good racing_env []))"
    by simp_all
  from vals have v: "vals = [''ab'', ''ab'']"
    by (simp add: stub_values)
  have second: "replay stub_strategy [''ab'', ''ab'']
        [(1, \<lparr>Type = WriteOp, Operation.Key = ''a''\<rparr>), (0, \<lparr>Type = ReadOp, Operation.Key = ''a''\<rparr>),
         (0, \<lparr>Type = WriteOp, Operation.Key = ''down''\<rparr>), (1, \<lparr>Type = ReadOp, Operation.Key = ''a''\<rparr>)] []
       = ([WriteEv 1 ''a'' ''ab'' None, ReadEv 0 ''a'' False None,
           WriteEv 0 ''down'' ''ab'' (Some (ErrorString ''unreachable'')),
           ReadEv 1 ''a'' True None], [''a''])"
    by (simp add: answer_def stub_strategy_def ReadOp_def WriteOp_def)
  have third: "count_events is_error
        [WriteEv 1 ''a'' ''ab'' None, ReadEv 0 ''a'' False None,
         WriteEv 0 ''down'' ''ab'' (Some (ErrorString ''unreachable'')),
         ReadEv 1 ''a'' True None] = 1"
      "count_events is_write
        [WriteEv 1 ''a'' ''ab'' None, ReadEv 0 ''a'' False None,
         WriteEv 0 ''down'' ''ab'' (Some (ErrorString ''unreachable'')),
         ReadEv 1 ''a'' True None] = 1"
    using cnt unfolding rr w' racing_run by simp_all
  have wr: "Type \<lparr>Type = WriteOp, Operation.Key = ''down''\<rparr> = WriteOp
      \<and> fst (Write (strategy ?good) (st ?w) (Operation.Key \<lparr>Type = WriteOp, Operation.Key = ''down''\<rparr>) ''ab'')
          = Some (ErrorString ''unreachable'')"
    by (simp add: NewRunner_def stub_strategy_def)
  have rd: "Type \<lparr>Type = ReadOp, Operation.Key = ''down''\<rparr> = ReadOp
      \<and> snd (snd (fst (Read (strategy ?good) (st ?w) (Operation.Key \<lparr>Type = ReadOp, Operation.Key = ''down''\<rparr>))))
          = Some (ErrorString ''unreachable'')"
    by (simp add: NewRunner_def stub_strategy_def)
  from inst [of ?good racing_env "[]"] wr
  have fourth: "res (worker_turn (strategy ?good) 0 ''ab'' 5 \<lparr>Type = WriteOp, Operation.Key = ''down''\<rparr> ?w)
       = (res ?w)\<lparr>TotalErrors := TotalErrors (res ?w) + 1\<rparr>"
    by blast
  from inst [of ?good racing_env "[]"] rd
  have fifth: "res (worker_turn (strategy ?good) 1 ''ab'' 5 \<lparr>Type = ReadOp, Operation.Key = ''down''\<rparr> ?w)
       = (res ?w)\<lparr>TotalErrors := TotalErrors (res ?w) + 1\<rparr>"
    by blast
  have zero: "TotalErrors (res ?w) + 1 = 1"
    by (simp add: NewRunner_def)
  show ?thesis
    using first racing_run second third fourth fifth
    unfolding good(6) zero by simp
qed

subsection \<open>The hit rate\<close>

text \<open>
  Claim C5. In the result of a run of a fresh runner the hit rate is the quotient of
  the hits by the hits and misses as soon as one read returned without an error, and
  it is zero, not NaN, when none did. Hits and misses together are the reads that
  returned without an error.
\<close>

theorem Run_HitRate:
  assumes run: "Run (NewRunner strat wl c vsize) E s0 = Some ((rr, err), w')"
  shows "(0 < TotalHits rr + TotalMisses rr \<longrightarrow>
            HitRate rr = Finite (of_int (TotalHits rr) / of_int (TotalHits rr + TotalMisses rr)))
       \<and> (TotalHits rr + TotalMisses rr = 0 \<longrightarrow> HitRate rr = Finite 0)
       \<and> HitRate rr \<noteq> NaN
       \<and> TotalHits rr + TotalMisses rr = count_events is_ok_read (events w')"
proof -
  let ?r = "NewRunner strat wl c vsize"
  have zero: "TotalHits (result ?r) = 0" "TotalMisses (result ?r) = 0"
    "HitRate (result ?r) = Finite 0"
    by (simp_all add: NewRunner_def)
  show ?thesis
  proof (cases "fst (Init (strategy ?r) s0)")
    case (Some e)
    then have "Init (strategy ?r) s0 = (Some e, snd (Init (strategy ?r) s0))"
      by (metis prod.collapse)
    from Run_Init_error [OF this, of E] run
    have "rr = result ?r" "events w' = []"
      by simp_all
    then show ?thesis
      by (simp add: zero count_events_Nil)
  next
    case None
    then have "Init (strategy ?r) s0 = (None, snd (Init (strategy ?r) s0))"
      by (metis prod.collapse)
    from Run_Init_ok [OF this run] obtain r0 where rr: "rr = calculateFinalMetrics r0"
      and h: "TotalHits r0 = count_events is_hit (events w')"
      and m: "TotalMisses r0 = count_events is_miss (events w')"
      and hr: "HitRate r0 = Finite 0"
      by (auto simp: zero)
    have ge: "0 \<le> TotalHits r0 + TotalMisses r0"
      by (simp add: h m count_events_def)
    have rate: "HitRate rr =
        (if 0 < TotalHits r0 + TotalMisses r0
         then Finite (of_int (TotalHits r0) / of_int (TotalHits r0 + TotalMisses r0))
         else Finite 0)"
      unfolding rr calculateFinalMetrics_HitRate by (simp add: hr float64_of_int_def)
    show ?thesis
      using rate ge count_events_classes(2) [of "events w'"]
      by (simp add: rr calculateFinalMetrics_fields h m)
  qed
qed

theorem Run_HitRate_witness:
  "Run (NewRunner stub_strategy stub_workload 2 1) stub_env [] =
     Some ((\<lparr>StrategyName = ''stub'', TotalOperations = 4, TotalHits = 1, TotalMisses = 1,
             TotalWrites = 1, TotalErrors = 1, TotalDuration = 10, HitRate = Finite (1 / 2),
             OpsPerSecond = Finite 400000000, Latencies = [5, 5, 5, 5]\<rparr>, None),
           \<lparr>st = [],
            res = \<lparr>StrategyName = ''stub'', TotalOperations = 4, TotalHits = 1,
                   TotalMisses = 1, TotalWrites = 1, TotalErrors = 1, TotalDuration = 10,
                   HitRate = Finite (1 / 2), OpsPerSecond = Finite 400000000,
                   Latencies = [5, 5, 5, 5]\<rparr>,
            opsChan = [], holding = [None, None], latencyChan = [],
            events = [ReadEv 0 ''a'' False None, ReadEv 1 ''a'' True None,
                      WriteEv 0 ''a'' ''ab'' None,
                      ReadEv 1 ''down'' False (Some (ErrorString ''unreachable''))]\<rparr>)
   \<and> (0::int) < 1 + 1 \<and> Finite (1 / 2) = Finite (of_int 1 / of_int (1 + 1))
   \<and> Finite (1 / 2) \<noteq> NaN"
  using Run_HitRate [OF stub_run] stub_run by simp

section \<open>Properties of the strategy with a local cache\<close>

subsection \<open>Read\<close>

text \<open>
  Claim C2. \<open>Read\<close> asks the local cache first. When the cache has the key, \<open>Read\<close>
  returns the cached value with \<open>hit = true\<close> and sends no command to the store. When
  it has not, \<open>Read\<close> sends one \<open>GET\<close>; if that succeeds it stores the value in the
  cache at a cost equal to the length of the value in bytes and returns it with
  \<open>hit = false\<close>; if it fails it returns the value and the error of the store as they
  are and stores nothing.
\<close>

theorem Read_checks_local_cache_first:
  "(\<forall>val c1. cache_Get L (l1Cache s) key = (Some val, c1) \<longrightarrow>
      RistrettoPubSubStrategy_Read L s key =
        ((val, True, None),
         s\<lparr>l1Cache := c1, cache_calls := cache_calls s @ [CacheGet key]\<rparr>)
      \<and> commands (snd (RistrettoPubSubStrategy_Read L s key)) = commands s
      \<and> redisClient (snd (RistrettoPubSubStrategy_Read L s key)) = redisClient s)
   \<and> (\<forall>c1 m r1 value. cache_Get L (l1Cache s) key = (None, c1)
         \<and> Do L (redisClient s) (GET key) = (m, r1) \<and> ToString L m = (value, None) \<longrightarrow>
      RistrettoPubSubStrategy_Read L s key =
        ((value, False, None),
         s\<lparr>l1Cache := snd (cache_Set L c1 key value (int (length value))),
           redisClient := r1,
           cache_calls := cache_calls s @ [CacheGet key, CacheSet key value (int (length value))],
           commands := commands s @ [GET key]\<rparr>))
   \<and> (\<forall>c1 m r1 value e. cache_Get L (l1Cache s) key = (None, c1)
         \<and> Do L (redisClient s) (GET key) = (m, r1) \<and> ToString L m = (value, Some e) \<longrightarrow>
      RistrettoPubSubStrategy_Read L s key =
        ((value, False, Some e),
         s\<lparr>l1Cache := c1, redisClient := r1,
           cache_calls := cache_calls s @ [CacheGet key],
           commands := commands s @ [GET key]\<rparr>))"
  by (auto simp: RistrettoPubSubStrategy_Read_def Let_def split: prod.splits)

theorem Read_checks_local_cache_first_witness:
  "RistrettoPubSubStrategy_Read stub_libs stub_state ''a'' =
     ((''1'', True, None), stub_state\<lparr>cache_calls := [CacheGet ''a'']\<rparr>)
   \<and> commands (snd (RistrettoPubSubStrategy_Read stub_libs stub_state ''a'')) = []
   \<and> RistrettoPubSubStrategy_Read stub_libs stub_state ''b'' =
     ((''22'', False, None),
      stub_state\<lparr>l1Cache := [(''b'', ''22''), (''a'', ''1'')],
                 cache_calls := [CacheGet ''b'', CacheSet ''b'' ''22'' 2],
                 commands := [GET ''b'']\<rparr>)
   \<and> RistrettoPubSubStrategy_Read stub_libs stub_state ''c'' =
     (([], False, Some (ErrorString ''redis nil message'')),
      stub_state\<lparr>cache_calls := [CacheGet ''c''], commands := [GET ''c'']\<rparr>)"
proof -
  have hit: "cache_Get stub_libs (l1Cache stub_state) ''a'' = (Some ''1'', [(''a'', ''1'')])"
    by (simp add: stub_libs_def stub_state_def)
  have miss: "cache_Get stub_libs (l1Cache stub_state) ''b'' = (None, [(''a'', ''1'')])"
    "Do stub_libs (redisClient stub_state) (GET ''b'') =
       ((''22'', None), [(''a'', ''1''), (''b'', ''22'')])"
    "ToString stub_libs (''22'', None) = (''22'', None)"
    by (simp_all add: stub_libs_def stub_state_def)
  have fail: "cache_Get stub_libs (l1Cache stub_state) ''c'' = (None, [(''a'', ''1'')])"
    "Do stub_libs (redisClient stub_state) (GET ''c'') =
       (([], Some (ErrorString ''redis nil message'')), [(''a'', ''1''), (''b'', ''22'')])"
    "ToString stub_libs ([], Some (ErrorString ''redis nil message'')) =
       ([], Some (ErrorString ''redis nil message''))"
    by (simp_all add: stub_libs_def stub_state_def)
  have set: "cache_Set stub_libs [(''a'', ''1'')] ''b'' ''22'' 2 = (True, [(''b'', ''22''), (''a'', ''1'')])"
    by (simp add: stub_libs_def)
  from Read_checks_local_cache_first [of stub_libs stub_state "''a''"] hit
  have a: "RistrettoPubSubStrategy_Read stub_libs stub_state ''a'' =
     ((''1'', True, None), stub_state\<lparr>cache_calls := [CacheGet ''a'']\<rparr>)
   \<and> commands (snd (RistrettoPubSubStrategy_Read stub_libs stub_state ''a'')) = []"
    by (simp add: stub_state_def)
  from Read_checks_local_cache_first [of stub_libs stub_state "''b''"] miss set
  have b: "RistrettoPubSubStrategy_Read stub_libs stub_state ''b'' =
     ((''22'', False, None),
      stub_state\<lparr>l1Cache := [(''b'', ''22''), (''a'', ''1'')],
                 cache_calls := [CacheGet ''b'', CacheSet ''b'' ''22'' 2],
                 commands := [GET ''b'']\<rparr>)"
    by (simp add: stub_state_def)
  from Read_checks_local_cache_first [of stub_libs stub_state "''c''"] fail
  have c: "RistrettoPubSubStrategy_Read stub_libs stub_state ''c'' =
     (([], False, Some (ErrorString ''redis nil message'')),
      stub_state\<lparr>cache_calls := [CacheGet ''c''], commands := [GET ''c'']\<rparr>)"
    by (simp add: stub_state_def)
  from a b c show ?thesis by blast
qed

subsection \<open>Write\<close>

lemma Read_asks_no_deletion:
  "CacheDel k \<in> set (cache_calls (snd (RistrettoPubSubStrategy_Read L s k'))) \<Longrightarrow>
     CacheDel k \<in> set (cache_calls s)"
  by (auto simp: RistrettoPubSubStrategy_Read_def Let_def
      split: prod.splits option.splits if_splits)

text \<open>
  Claim C3. \<open>Write\<close> never calls the local cache: the cache is in the state it was in,
  whatever the store answers. \<open>Write\<close> sends \<open>SET key value\<close>; when that succeeds it
  publishes on the invalidation channel the encoded message for that key, and returns
  what the publication returns; when it fails it returns the error and publishes
  nothing. \<open>Read\<close> asks the cache for no deletion either: the strategy deletes from
  its cache only in the function the listener runs on a message.
\<close>

theorem Write_leaves_local_cache:
  "l1Cache (snd (RistrettoPubSubStrategy_Write L s key value)) = l1Cache s
   \<and> cache_calls (snd (RistrettoPubSubStrategy_Write L s key value)) = cache_calls s
   \<and> (\<forall>m1 r1. Do L (redisClient s) (SET key value) = (m1, r1) \<and> ResultError L m1 = None \<longrightarrow>
        commands (snd (RistrettoPubSubStrategy_Write L s key value)) =
          commands s @ [SET key value,
                        PUBLISH InvalidationChannel (fst (Marshal L \<lparr>Key = key\<rparr>))]
        \<and> fst (RistrettoPubSubStrategy_Write L s key value) =
            ResultError L (fst (Do L r1 (PUBLISH InvalidationChannel (fst (Marshal L \<lparr>Key = key\<rparr>))))))
   \<and> (\<forall>m1 r1 e. Do L (redisClient s) (SET key value) = (m1, r1) \<and> ResultError L m1 = Some e \<longrightarrow>
        commands (snd (RistrettoPubSubStrategy_Write L s key value)) = commands s @ [SET key value]
        \<and> fst (RistrettoPubSubStrategy_Write L s key value) = Some e)
   \<and> (\<forall>k k'. CacheDel k \<in> set (cache_calls (snd (RistrettoPubSubStrategy_Read L s k'))) \<longrightarrow>
        CacheDel k \<in> set (cache_calls s))"
proof -
  have del: "\<forall>k k'. CacheDel k \<in> set (cache_calls (snd (RistrettoPubSubStrategy_Read L s k'))) \<longrightarrow>
        CacheDel k \<in> set (cache_calls s)"
    using Read_asks_no_deletion by blast
  show ?thesis
    by (intro conjI del)
       (auto simp: RistrettoPubSubStrategy_Write_def Let_def split: prod.splits)
qed

theorem Write_leaves_local_cache_witness:
  "l1Cache (snd (RistrettoPubSubStrategy_Write stub_libs stub_state ''a'' ''xyz'')) = [(''a'', ''1'')]
   \<and> cache_calls (snd (RistrettoPubSubStrategy_Write stub_libs stub_state ''a'' ''xyz'')) = []
   \<and> commands (snd (RistrettoPubSubStrategy_Write stub_libs stub_state ''a'' ''xyz'')) =
        [SET ''a'' ''xyz'',
         PUBLISH ''cache-invalidation'' (''{'' @ [quote] @ ''key'' @ [quote] @ '':'' @ [quote] @ ''a'' @ [quote] @ ''}'')]
   \<and> fst (RistrettoPubSubStrategy_Write stub_libs stub_state ''a'' ''xyz'') = None
   \<and> commands (snd (RistrettoPubSubStrategy_Write stub_libs stub_state ''down'' ''xyz'')) =
        [SET ''down'' ''xyz'']
   \<and> fst (RistrettoPubSubStrategy_Write stub_libs stub_state ''down'' ''xyz'') =
        Some (ErrorString ''unreachable'')
   \<and> l1Cache (snd (RistrettoPubSubStrategy_Write stub_libs stub_state ''down'' ''xyz'')) = [(''a'', ''1'')]"
proof -
  have ok: "Do stub_libs (redisClient stub_state) (SET ''a'' ''xyz'') =
       ((''OK'', None), [(''a'', ''xyz''), (''a'', ''1''), (''b'', ''22'')])"
    "ResultError stub_libs (''OK'', None) = None"
    by (simp_all add: stub_libs_def stub_state_def)
  have pub: "fst (Marshal stub_libs \<lparr>Key = ''a''\<rparr>) =
      ''{'' @ [quote] @ ''key'' @ [quote] @ '':'' @ [quote] @ ''a'' @ [quote] @ ''}''"
    "\<And>r c. ResultError stub_libs (fst (Do stub_libs r (PUBLISH c
        (''{'' @ [quote] @ ''key'' @ [quote] @ '':'' @ [quote] @ ''a'' @ [quote] @ ''}'')))) = None"
    by (simp_all add: stub_libs_def)
  have bad: "Do stub_libs (redisClient stub_state) (SET ''down'' ''xyz'') =
       (([], Some (ErrorString ''unreachable'')), [(''a'', ''1''), (''b'', ''22'')])"
    "ResultError stub_libs ([], Some (ErrorString ''unreachable'')) = Some (ErrorString ''unreachable'')"
    by (simp_all add: stub_libs_def stub_state_def)
  have st: "l1Cache stub_state = [(''a'', ''1'')]" "cache_calls stub_state = []"
    "commands stub_state = []"
    by (simp_all add: stub_state_def)
  from Write_leaves_local_cache [of stub_libs stub_state "''a''" "''xyz''"] ok pub st
  have a: "l1Cache (snd (RistrettoPubSubStrategy_Write stub_libs stub_state ''a'' ''xyz'')) = [(''a'', ''1'')]
   \<and> cache_calls (snd (RistrettoPubSubStrategy_Write stub_libs stub_state ''a'' ''xyz'')) = []
   \<and> commands (snd (RistrettoPubSubStrategy_Write stub_libs stub_state ''a'' ''xyz'')) =
        [SET ''a'' ''xyz'',
         PUBLISH ''cache-invalidation'' (''{'' @ [quote] @ ''key'' @ [quote] @ '':'' @ [quote] @ ''a'' @ [quote] @ ''}'')]
   \<and> fst (RistrettoPubSubStrategy_Write stub_libs stub_state ''a'' ''xyz'') = None"
    by (simp add: InvalidationChannel_def)
  from Write_leaves_local_cache [of stub_libs stub_state "''down''" "''xyz''"] bad st
  have b: "commands (snd (RistrettoPubSubStrategy_Write stub_libs stub_state ''down'' ''xyz'')) =
        [SET ''down'' ''xyz'']
   \<and> fst (RistrettoPubSubStrategy_Write stub_libs stub_state ''down'' ''xyz'') =
        Some (ErrorString ''unreachable'')
   \<and> l1Cache (snd (RistrettoPubSubStrategy_Write stub_libs stub_state ''down'' ''xyz'')) = [(''a'', ''1'')]"
    by simp
  from a b show ?thesis by blast
qed

subsection \<open>The invalidation listener\<close>

lemma on_message_malformed:
  "fst (Unmarshal L msg \<lparr>Key = ''''\<rparr>) \<noteq> None \<Longrightarrow> on_message L msg s = s"
  by (auto simp: on_message_def split: prod.splits)

lemma foldl_on_message_malformed:
  "(\<forall>msg \<in> set msgs. fst (Unmarshal L msg \<lparr>Key = ''''\<rparr>) \<noteq> None) \<Longrightarrow>
     foldl (\<lambda>t msg. on_message L msg t) s msgs = s"
  by (induction msgs arbitrary: s) (simp_all add: on_message_malformed)

text \<open>
  Claim C8. A message the decoder rejects changes nothing: no call to the cache, no
  line in the log, and a listener that receives only such messages leaves the strategy
  as it was. When the reception ends, the listener adds one line to the log if the
  error is not the cancellation, and none otherwise; the state of the strategy is the
  one the messages left, whatever that error is, and the listener returns no error to
  anyone.
\<close>

theorem listener_drops_malformed_messages:
  "(\<forall>e m. Unmarshal L msg \<lparr>Key = ''''\<rparr> = (Some e, m) \<longrightarrow> on_message L msg s = s)
   \<and> ((\<forall>x \<in> set msgs. fst (Unmarshal L x \<lparr>Key = ''''\<rparr>) \<noteq> None) \<longrightarrow>
        fst (listenForInvalidations L msgs recv (s, lg)) = s)
   \<and> fst (listenForInvalidations L msgs recv (s, lg)) =
        fst (listenForInvalidations L msgs None (s, lg))
   \<and> (\<forall>e. recv = Some e \<and> e \<noteq> Canceled \<longrightarrow>
        snd (listenForInvalidations L msgs recv (s, lg)) =
          lg @ [''Error in Pub/Sub listener: '' @ Error e])
   \<and> (recv = None \<or> recv = Some Canceled \<longrightarrow>
        snd (listenForInvalidations L msgs recv (s, lg)) = lg)"
proof (intro conjI allI impI)
  fix e m assume "Unmarshal L msg \<lparr>Key = ''''\<rparr> = (Some e, m)"
  then show "on_message L msg s = s"
    by (simp add: on_message_malformed)
next
  assume "\<forall>x \<in> set msgs. fst (Unmarshal L x \<lparr>Key = ''''\<rparr>) \<noteq> None"
  from foldl_on_message_malformed [OF this, of s]
  show "fst (listenForInvalidations L msgs recv (s, lg)) = s"
    by (simp add: listenForInvalidations_def Let_def split: option.splits)
next
  show "fst (listenForInvalidations L msgs recv (s, lg)) =
        fst (listenForInvalidations L msgs None (s, lg))"
    by (simp add: listenForInvalidations_def Let_def split: option.splits)
next
  fix e assume "recv = Some e \<and> e \<noteq> Canceled"
  then show "snd (listenForInvalidations L msgs recv (s, lg)) =
          lg @ [''Error in Pub/Sub listener: '' @ Error e]"
    by (simp add: listenForInvalidations_def Let_def)
next
  assume "recv = None \<or> recv = Some Canceled"
  then show "snd (listenForInvalidations L msgs recv (s, lg)) = lg"
    by (auto simp: listenForInvalidations_def Let_def)
qed

lemma stub_Unmarshal_malformed:
  "stub_Unmarshal ''{x'' \<lparr>Key = ''''\<rparr> = (Some (ErrorString ''invalid character''), \<lparr>Key = ''''\<rparr>)"
  "stub_Unmarshal ''nope'' \<lparr>Key = ''''\<rparr> = (Some (ErrorString ''invalid character''), \<lparr>Key = ''''\<rparr>)"
  by (simp_all add: stub_Unmarshal_def quote_def)

theorem listener_drops_malformed_messages_witness:
  "on_message stub_libs ''{x'' stub_state = stub_state
   \<and> listenForInvalidations stub_libs [''{x'', ''nope''] (Some (ErrorString ''connection reset''))
        (stub_state, []) =
       (stub_state, [''Error in Pub/Sub listener: connection reset''])
   \<and> listenForInvalidations stub_libs [''{x'', ''nope''] (Some Canceled) (stub_state, []) =
       (stub_state, [])"
proof -
  have um: "Unmarshal stub_libs = stub_Unmarshal"
    by (simp add: stub_libs_def)
  have bad: "\<forall>x \<in> set [''{x'', ''nope'']. fst (Unmarshal stub_libs x \<lparr>Key = ''''\<rparr>) \<noteq> None"
    by (simp add: um stub_Unmarshal_malformed)
  have a: "on_message stub_libs ''{x'' stub_state = stub_state"
    using listener_drops_malformed_messages [of stub_libs "''{x''" stub_state]
    by (simp add: um stub_Unmarshal_malformed)
  have b: "fst (listenForInvalidations stub_libs [''{x'', ''nope'']
                 (Some (ErrorString ''connection reset'')) (stub_state, [])) = stub_state
     \<and> snd (listenForInvalidations stub_libs [''{x'', ''nope'']
                 (Some (ErrorString ''connection reset'')) (stub_state, [])) =
          [''Error in Pub/Sub listener: connection reset'']"
    using listener_drops_malformed_messages
      [of stub_libs _ stub_state "[''{x'', ''nope'']" "Some (ErrorString ''connection reset'')" "[]"]
      bad
    by simp
  have c: "fst (listenForInvalidations stub_libs [''{x'', ''nope''] (Some Canceled) (stub_state, []))
             = stub_state
     \<and> snd (listenForInvalidations stub_libs [''{x'', ''nope''] (Some Canceled) (stub_state, [])) = []"
    using listener_drops_malformed_messages
      [of stub_libs _ stub_state "[''{x'', ''nope'']" "Some Canceled" "[]"] bad
    by simp
  from a b c show ?thesis
    by (metis prod.collapse)
qed

text \<open>
  Claim C10. The listener decodes each message into a structure whose key starts
  empty, as Go's zero value is. When the decoder accepts the message and the key is
  still empty (the message has no key, or an empty one) the strategy is unchanged:
  the cache is not called. When the key decoded is not empty the listener deletes
  that key from the cache, with one call. A deletion therefore always comes from a
  message decoded without error to the key deleted, which is not empty.
\<close>

theorem listener_evicts_only_nonempty_key:
  "(\<forall>m. Unmarshal L msg \<lparr>Key = ''''\<rparr> = (None, m) \<and> Key m = '''' \<longrightarrow> on_message L msg s = s)
   \<and> (\<forall>m. Unmarshal L msg \<lparr>Key = ''''\<rparr> = (None, m) \<and> Key m \<noteq> '''' \<longrightarrow>
         on_message L msg s =
           s\<lparr>l1Cache := cache_Del L (l1Cache s) (Key m),
             cache_calls := cache_calls s @ [CacheDel (Key m)]\<rparr>)
   \<and> (on_message L msg s = s
       \<or> (\<exists>m. Unmarshal L msg \<lparr>Key = ''''\<rparr> = (None, m) \<and> Key m \<noteq> ''''
            \<and> cache_calls (on_message L msg s) = cache_calls s @ [CacheDel (Key m)]))"
  by (auto simp: on_message_def Let_def split: prod.splits)

lemma stub_Unmarshal_wellformed:
  "stub_Unmarshal ''{}'' \<lparr>Key = ''''\<rparr> = (None, \<lparr>Key = ''''\<rparr>)"
  "stub_Unmarshal (fst (Marshal stub_libs \<lparr>Key = ''''\<rparr>)) \<lparr>Key = ''''\<rparr> = (None, \<lparr>Key = ''''\<rparr>)"
  "stub_Unmarshal (fst (Marshal stub_libs \<lparr>Key = ''a''\<rparr>)) \<lparr>Key = ''''\<rparr> = (None, \<lparr>Key = ''a''\<rparr>)"
  by (simp_all add: stub_Unmarshal_def stub_libs_def quote_def)

theorem listener_evicts_only_nonempty_key_witness:
  "on_message stub_libs ''{}'' stub_state = stub_state
   \<and> on_message stub_libs (fst (Marshal stub_libs \<lparr>Key = ''''\<rparr>)) stub_state = stub_state
   \<and> on_message stub_libs (fst (Marshal stub_libs \<lparr>Key = ''a''\<rparr>)) stub_state =
       stub_state\<lparr>l1Cache := [], cache_calls := [CacheDel ''a'']\<rparr>"
proof -
  have um: "Unmarshal stub_libs = stub_Unmarshal"
    by (simp add: stub_libs_def)
  have del: "cache_Del stub_libs (l1Cache stub_state) ''a'' = []" "cache_calls stub_state = []"
    by (simp_all add: stub_libs_def stub_state_def)
  have a: "on_message stub_libs ''{}'' stub_state = stub_state"
    using listener_evicts_only_nonempty_key [of stub_libs "''{}''" stub_state]
    by (simp add: um stub_Unmarshal_wellformed)
  have b: "on_message stub_libs (fst (Marshal stub_libs \<lparr>Key = ''''\<rparr>)) stub_state = stub_state"
    using listener_evicts_only_nonempty_key
      [of stub_libs "fst (Marshal stub_libs \<lparr>Key = ''''\<rparr>)" stub_state]
    by (simp add: um stub_Unmarshal_wellformed)
  have c: "on_message stub_libs (fst (Marshal stub_libs \<lparr>Key = ''a''\<rparr>)) stub_state =
       stub_state\<lparr>l1Cache := [], cache_calls := [CacheDel ''a'']\<rparr>"
    using listener_evicts_only_nonempty_key
      [of stub_libs "fst (Marshal stub_libs \<lparr>Key = ''a''\<rparr>)" stub_state]
    by (simp add: um stub_Unmarshal_wellformed del)
  from a b c show ?thesis by blast
qed

section \<open>Properties of the workload generators\<close>

lemma Generate_loop_types:
  "Generate_loop R ratio n zipf g = Some ops \<Longrightarrow>
     map Type ops = map (\<lambda>f. if fgt f ratio then WriteOp else ReadOp) (ratio_draws R n g)"
proof (induction n arbitrary: zipf g ops)
  case 0
  then show ?case by simp
next
  case (Suc n)
  from Suc.prems obtain z where z: "zipf = Some z"
    by (cases zipf) simp_all
  obtain k z' where u: "Uint64 R z = (k, z')" by (cases "Uint64 R z")
  obtain f g' where fl: "Float64 R g = (f, g')" by (cases "Float64 R g")
  from Suc.prems z u fl obtain rest where
    rest: "Generate_loop R ratio n (Some z') g' = Some rest"
    and ops: "ops = \<lparr>Type = (if fgt f ratio then WriteOp else ReadOp),
                      Operation.Key = ''key-'' @ decimal (unat k)\<rparr> # rest"
    by (auto simp: Let_def)
  from Suc.IH [OF rest] ops fl show ?case
    by simp
qed

lemma GenerateUniform_loop_types:
  "GenerateUniform_loop R numKeys ratio n g = Some ops \<Longrightarrow>
     map Type ops = map (\<lambda>f. if fgt f ratio then WriteOp else ReadOp) (uniform_draws R numKeys n g)"
proof (induction n arbitrary: g ops)
  case 0
  then show ?case by simp
next
  case (Suc n)
  from Suc.prems have pos: "0 < numKeys"
    by (simp split: if_splits)
  obtain k g1 where i: "Intn R g numKeys = (k, g1)" by (cases "Intn R g numKeys")
  obtain f g2 where fl: "Float64 R g1 = (f, g2)" by (cases "Float64 R g1")
  from Suc.prems pos i fl obtain rest where
    rest: "GenerateUniform_loop R numKeys ratio n g2 = Some rest"
    and ops: "ops = \<lparr>Type = (if fgt f ratio then WriteOp else ReadOp),
                      Operation.Key = ''key-'' @ Sprintf_d k\<rparr> # rest"
    by (auto simp: Let_def)
  from Suc.IH [OF rest] ops i fl show ?case
    by simp
qed

lemma Generate_loop_returns:
  "\<exists>ops. Generate_loop R ratio n (Some z) g = Some ops"
proof (induction n arbitrary: z g)
  case 0
  show ?case by simp
next
  case (Suc n)
  obtain k z' where u: "Uint64 R z = (k, z')" by (cases "Uint64 R z")
  obtain f g' where fl: "Float64 R g = (f, g')" by (cases "Float64 R g")
  from Suc [of z' g'] u fl show ?case
    by (auto simp: Let_def)
qed

lemma GenerateUniform_loop_returns:
  "0 < numKeys \<Longrightarrow> \<exists>ops. GenerateUniform_loop R numKeys ratio n g = Some ops"
proof (induction n arbitrary: g)
  case 0
  show ?case by simp
next
  case (Suc n)
  obtain k g1 where i: "Intn R g numKeys = (k, g1)" by (cases "Intn R g numKeys")
  obtain f g2 where fl: "Float64 R g1 = (f, g2)" by (cases "Float64 R g1")
  from Suc.IH [OF Suc.prems, of g2] Suc.prems i fl show ?case
    by (auto simp: Let_def)
qed

lemma ratio_draws_in_unit:
  "\<forall>g. in_unit (fst (Float64 R g)) \<Longrightarrow> \<forall>f \<in> set (ratio_draws R n g). in_unit f"
proof (induction n arbitrary: g)
  case 0
  show ?case by simp
next
  case (Suc n)
  obtain f g' where fl: "Float64 R g = (f, g')" by (cases "Float64 R g")
  from Suc.prems have "in_unit (fst (Float64 R g))" by blast
  with Suc.IH [OF Suc.prems, of g'] fl show ?case
    by simp
qed

lemma uniform_draws_in_unit:
  "\<forall>g. in_unit (fst (Float64 R g)) \<Longrightarrow> \<forall>f \<in> set (uniform_draws R numKeys n g). in_unit f"
proof (induction n arbitrary: g)
  case 0
  show ?case by simp
next
  case (Suc n)
  obtain k g1 where i: "Intn R g numKeys = (k, g1)" by (cases "Intn R g numKeys")
  obtain f g2 where fl: "Float64 R g1 = (f, g2)" by (cases "Float64 R g1")
  from Suc.prems have "in_unit (fst (Float64 R g1))" by blast
  with Suc.IH [OF Suc.prems, of g2] i fl show ?case
    by simp
qed

lemma length_ratio_draws: "length (ratio_draws R n g) = n"
  by (induction n arbitrary: g) (simp_all add: Let_def split: prod.splits)

lemma length_uniform_draws: "length (uniform_draws R numKeys n g) = n"
  by (induction n arbitrary: g) (simp_all add: Let_def split: prod.splits)

lemma in_unit_not_above_one: "in_unit f \<Longrightarrow> \<not> fgt f (Finite 1)"
  by (cases f) (simp_all add: in_unit_def)

lemma all_reads:
  assumes "map Type ops = map (\<lambda>f. if fgt f (Finite 1) then WriteOp else ReadOp) draws"
    and "\<forall>f \<in> set draws. in_unit f"
  shows "\<forall>op \<in> set ops. Type op = ReadOp"
proof -
  have "map Type ops = map (\<lambda>f. ReadOp) draws"
    unfolding assms(1) using assms(2) by (simp add: in_unit_not_above_one)
  then have "set (map Type ops) \<subseteq> {ReadOp}"
    by auto
  then show ?thesis by auto
qed

text \<open>
  Claim C6. In the workload of either generator the type of the \<open>i\<close>-th operation is
  \<open>WriteOp\<close> exactly when the \<open>i\<close>-th value drawn for the decision is greater than
  \<open>readWriteRatio\<close> (Go's \<open>>\<close>), and \<open>ReadOp\<close> otherwise. With draws in \<open>[0, 1)\<close>, as
  \<open>Float64\<close> promises, and a ratio of 1 every operation is a read. The generators
  return a workload as soon as the number of operations is not negative and the key
  generator exists (there is a Zipf generator, the number of keys is positive).
\<close>

theorem generators_classify_by_draw:
  "(\<forall>ops. Generate R g numOps numKeys ratio zipfS zipfV = Some ops \<longrightarrow>
      length ops = nat numOps \<and> length (ratio_draws R (nat numOps) g) = nat numOps
      \<and> (\<forall>i < nat numOps.
            (Type (ops ! i) = WriteOp \<longleftrightarrow> fgt (ratio_draws R (nat numOps) g ! i) ratio)
          \<and> (Type (ops ! i) = ReadOp \<longleftrightarrow> \<not> fgt (ratio_draws R (nat numOps) g ! i) ratio)))
   \<and> (\<forall>ops. GenerateUniform R g numOps numKeys ratio = Some ops \<longrightarrow>
      length ops = nat numOps \<and> length (uniform_draws R numKeys (nat numOps) g) = nat numOps
      \<and> (\<forall>i < nat numOps.
            (Type (ops ! i) = WriteOp \<longleftrightarrow> fgt (uniform_draws R numKeys (nat numOps) g ! i) ratio)
          \<and> (Type (ops ! i) = ReadOp \<longleftrightarrow> \<not> fgt (uniform_draws R numKeys (nat numOps) g ! i) ratio)))
   \<and> ((\<forall>g'. in_unit (fst (Float64 R g'))) \<longrightarrow>
        (\<forall>ops. Generate R g numOps numKeys (Finite 1) zipfS zipfV = Some ops
               \<or> GenerateUniform R g numOps numKeys (Finite 1) = Some ops \<longrightarrow>
           (\<forall>op \<in> set ops. Type op = ReadOp)))
   \<and> (0 \<le> numOps \<and> NewZipf R zipfS zipfV (word_of_int (numKeys - 1)) \<noteq> None \<longrightarrow>
        Generate R g numOps numKeys ratio zipfS zipfV \<noteq> None)
   \<and> (0 \<le> numOps \<and> 0 < numKeys \<longrightarrow> GenerateUniform R g numOps numKeys ratio \<noteq> None)"
proof -
  have nth: "\<And>(ops :: Operation list) draws n. map Type ops = map (\<lambda>f. if fgt f ratio then WriteOp else ReadOp) draws
      \<Longrightarrow> length draws = n
      \<Longrightarrow> length ops = n \<and> (\<forall>i < n.
            (Type (ops ! i) = WriteOp \<longleftrightarrow> fgt (draws ! i) ratio)
          \<and> (Type (ops ! i) = ReadOp \<longleftrightarrow> \<not> fgt (draws ! i) ratio))"
  proof -
    fix ops :: "Operation list" and draws n
    assume m: "map Type ops = map (\<lambda>f. if fgt f ratio then WriteOp else ReadOp) draws"
      and l: "length draws = n"
    from m have len: "length ops = length draws"
      by (metis length_map)
    have "\<forall>i < n. Type (ops ! i) = (if fgt (draws ! i) ratio then WriteOp else ReadOp)"
    proof (intro allI impI)
      fix i assume "i < n"
      with l len have "map Type ops ! i = Type (ops ! i)"
        and "map (\<lambda>f. if fgt f ratio then WriteOp else ReadOp) draws ! i
               = (if fgt (draws ! i) ratio then WriteOp else ReadOp)"
        by simp_all
      with m show "Type (ops ! i) = (if fgt (draws ! i) ratio then WriteOp else ReadOp)"
        by simp
    qed
    with len l show "length ops = n \<and> (\<forall>i < n.
            (Type (ops ! i) = WriteOp \<longleftrightarrow> fgt (draws ! i) ratio)
          \<and> (Type (ops ! i) = ReadOp \<longleftrightarrow> \<not> fgt (draws ! i) ratio))"
      by (simp add: ReadOp_def WriteOp_def)
  qed
  note len_r = length_ratio_draws [of R] and len_u = length_uniform_draws [of R numKeys]
  have gen: "\<And>ops r. Generate R g numOps numKeys r zipfS zipfV = Some ops \<Longrightarrow>
      map Type ops = map (\<lambda>f. if fgt f r then WriteOp else ReadOp) (ratio_draws R (nat numOps) g)"
    by (auto simp: Generate_def split: if_splits dest: Generate_loop_types)
  have uni: "\<And>ops r. GenerateUniform R g numOps numKeys r = Some ops \<Longrightarrow>
      map Type ops = map (\<lambda>f. if fgt f r then WriteOp else ReadOp)
                       (uniform_draws R numKeys (nat numOps) g)"
    by (auto simp: GenerateUniform_def split: if_splits dest: GenerateUniform_loop_types)
  have p1: "\<forall>ops. Generate R g numOps numKeys ratio zipfS zipfV = Some ops \<longrightarrow>
      length ops = nat numOps \<and> length (ratio_draws R (nat numOps) g) = nat numOps
      \<and> (\<forall>i < nat numOps.
            (Type (ops ! i) = WriteOp \<longleftrightarrow> fgt (ratio_draws R (nat numOps) g ! i) ratio)
          \<and> (Type (ops ! i) = ReadOp \<longleftrightarrow> \<not> fgt (ratio_draws R (nat numOps) g ! i) ratio))"
  proof (rule allI, rule impI)
    fix ops assume "Generate R g numOps numKeys ratio zipfS zipfV = Some ops"
    from nth [OF gen [OF this] len_r] len_r
    show "length ops = nat numOps \<and> length (ratio_draws R (nat numOps) g) = nat numOps
      \<and> (\<forall>i < nat numOps.
            (Type (ops ! i) = WriteOp \<longleftrightarrow> fgt (ratio_draws R (nat numOps) g ! i) ratio)
          \<and> (Type (ops ! i) = ReadOp \<longleftrightarrow> \<not> fgt (ratio_draws R (nat numOps) g ! i) ratio))"
      by simp
  qed
  have p2: "\<forall>ops. GenerateUniform R g numOps numKeys ratio = Some ops \<longrightarrow>
      length ops = nat numOps \<and> length (uniform_draws R numKeys (nat numOps) g) = nat numOps
      \<and> (\<forall>i < nat numOps.
            (Type (ops ! i) = WriteOp \<longleftrightarrow> fgt (uniform_draws R numKeys (nat numOps) g ! i) ratio)
          \<and> (Type (ops ! i) = ReadOp \<longleftrightarrow> \<not> fgt (uniform_draws R numKeys (nat numOps) g ! i) ratio))"
  proof (rule allI, rule impI)
    fix ops assume "GenerateUniform R g numOps numKeys ratio = Some ops"
    from nth [OF uni [OF this] len_u] len_u
    show "length ops = nat numOps \<and> length (uniform_draws R numKeys (nat numOps) g) = nat numOps
      \<and> (\<forall>i < nat numOps.
            (Type (ops ! i) = WriteOp \<longleftrightarrow> fgt (uniform_draws R numKeys (nat numOps) g ! i) ratio)
          \<and> (Type (ops ! i) = ReadOp \<longleftrightarrow> \<not> fgt (uniform_draws R numKeys (nat numOps) g ! i) ratio))"
      by simp
  qed
  have p3: "(\<forall>g'. in_unit (fst (Float64 R g'))) \<longrightarrow>
        (\<forall>ops. Generate R g numOps numKeys (Finite 1) zipfS zipfV = Some ops
               \<or> GenerateUniform R g numOps numKeys (Finite 1) = Some ops \<longrightarrow>
           (\<forall>op \<in> set ops. Type op = ReadOp))"
  proof (intro allI impI)
    fix ops
    assume u: "\<forall>g'. in_unit (fst (Float64 R g'))"
    assume "Generate R g numOps numKeys (Finite 1) zipfS zipfV = Some ops
               \<or> GenerateUniform R g numOps numKeys (Finite 1) = Some ops"
    then show "\<forall>op \<in> set ops. Type op = ReadOp"
    proof (rule disjE)
      assume "Generate R g numOps numKeys (Finite 1) zipfS zipfV = Some ops"
      from all_reads [OF gen [OF this] ratio_draws_in_unit [OF u]] show ?thesis .
    next
      assume "GenerateUniform R g numOps numKeys (Finite 1) = Some ops"
      from all_reads [OF uni [OF this] uniform_draws_in_unit [OF u]] show ?thesis .
    qed
  qed
  have p4: "0 \<le> numOps \<and> NewZipf R zipfS zipfV (word_of_int (numKeys - 1)) \<noteq> None \<longrightarrow>
        Generate R g numOps numKeys ratio zipfS zipfV \<noteq> None"
    using Generate_loop_returns [of R ratio "nat numOps" _ g]
    by (auto simp: Generate_def)
  have p5: "0 \<le> numOps \<and> 0 < numKeys \<longrightarrow> GenerateUniform R g numOps numKeys ratio \<noteq> None"
    using GenerateUniform_loop_returns [of numKeys R ratio "nat numOps" g]
    by (auto simp: GenerateUniform_def)
  show ?thesis
    by (intro conjI p1 p2 p3 p4 p5)
qed

lemma stub_Generate:
  "Generate stub_rand 0 3 10 (Finite (1 / 3)) (Finite (101 / 100)) (Finite 1) =
     Some [\<lparr>Type = WriteOp, Operation.Key = ''key-0''\<rparr>,
           \<lparr>Type = ReadOp, Operation.Key = ''key-1''\<rparr>,
           \<lparr>Type = ReadOp, Operation.Key = ''key-2''\<rparr>]"
  "ratio_draws stub_rand (nat 3) 0 = [Finite (1 / 2), Finite (1 / 3), Finite (1 / 4)]"
  by (simp_all add: Generate_def stub_rand_def decimal.simps digit_char_def numeral_3_eq_3)

lemma stub_GenerateUniform:
  "GenerateUniform stub_rand 0 3 10 (Finite (1 / 4)) =
     Some [\<lparr>Type = WriteOp, Operation.Key = ''key-0''\<rparr>,
           \<lparr>Type = ReadOp, Operation.Key = ''key-2''\<rparr>,
           \<lparr>Type = ReadOp, Operation.Key = ''key-4''\<rparr>]"
  "uniform_draws stub_rand 10 (nat 3) 0 = [Finite (1 / 3), Finite (1 / 5), Finite (1 / 7)]"
  by (simp_all add: GenerateUniform_def stub_rand_def Sprintf_d_def decimal.simps digit_char_def
      numeral_3_eq_3)

lemma stub_rand_in_unit: "\<forall>g'. in_unit (fst (Float64 stub_rand g'))"
  by (simp add: stub_rand_def in_unit_def)

theorem generators_classify_by_draw_witness:
  "Generate stub_rand 0 3 10 (Finite (1 / 3)) (Finite (101 / 100)) (Finite 1) =
     Some [\<lparr>Type = WriteOp, Operation.Key = ''key-0''\<rparr>,
           \<lparr>Type = ReadOp, Operation.Key = ''key-1''\<rparr>,
           \<lparr>Type = ReadOp, Operation.Key = ''key-2''\<rparr>]
   \<and> ratio_draws stub_rand (nat 3) 0 = [Finite (1 / 2), Finite (1 / 3), Finite (1 / 4)]
   \<and> (Type ([\<lparr>Type = WriteOp, Operation.Key = ''key-0''\<rparr>,
               \<lparr>Type = ReadOp, Operation.Key = ''key-1''\<rparr>,
               \<lparr>Type = ReadOp, Operation.Key = ''key-2''\<rparr>] ! 0) = WriteOp)
        = fgt ([Finite (1 / 2), Finite (1 / 3), Finite (1 / 4)] ! 0) (Finite (1 / 3))
   \<and> (Type ([\<lparr>Type = WriteOp, Operation.Key = ''key-0''\<rparr>,
               \<lparr>Type = ReadOp, Operation.Key = ''key-1''\<rparr>,
               \<lparr>Type = ReadOp, Operation.Key = ''key-2''\<rparr>] ! 1) = WriteOp)
        = fgt ([Finite (1 / 2), Finite (1 / 3), Finite (1 / 4)] ! 1) (Finite (1 / 3))
   \<and> (\<forall>g'. in_unit (fst (Float64 stub_rand g')))
   \<and> (\<exists>ops. GenerateUniform stub_rand 0 3 10 (Finite 1) = Some ops
          \<and> (\<forall>op \<in> set ops. Type op = ReadOp))"
proof -
  note inst = generators_classify_by_draw
    [of stub_rand 0 3 10 "Finite (1 / 3)" "Finite (101 / 100)" "Finite 1"]
  from inst stub_Generate have a: "\<forall>i < nat 3.
         (Type ([\<lparr>Type = WriteOp, Operation.Key = ''key-0''\<rparr>,
                 \<lparr>Type = ReadOp, Operation.Key = ''key-1''\<rparr>,
                 \<lparr>Type = ReadOp, Operation.Key = ''key-2''\<rparr>] ! i) = WriteOp)
          = fgt ([Finite (1 / 2), Finite (1 / 3), Finite (1 / 4)] ! i) (Finite (1 / 3))"
    by simp
  note one = generators_classify_by_draw
    [of stub_rand 0 3 10 "Finite 1" "Finite (101 / 100)" "Finite 1"]
  have range: "(0::int) \<le> 3 \<and> (0::int) < 10"
    by simp
  from one range obtain ops where ops: "GenerateUniform stub_rand 0 3 10 (Finite 1) = Some ops"
    by blast
  from one stub_rand_in_unit ops have "\<forall>op \<in> set ops. Type op = ReadOp"
    by blast
  with ops have b: "\<exists>ops. GenerateUniform stub_rand 0 3 10 (Finite 1) = Some ops
          \<and> (\<forall>op \<in> set ops. Type op = ReadOp)"
    by blast
  from a have a0: "(Type ([\<lparr>Type = WriteOp, Operation.Key = ''key-0''\<rparr>,
               \<lparr>Type = ReadOp, Operation.Key = ''key-1''\<rparr>,
               \<lparr>Type = ReadOp, Operation.Key = ''key-2''\<rparr>] ! 0) = WriteOp)
        = fgt ([Finite (1 / 2), Finite (1 / 3), Finite (1 / 4)] ! 0) (Finite (1 / 3))"
    and a1: "(Type ([\<lparr>Type = WriteOp, Operation.Key = ''key-0''\<rparr>,
               \<lparr>Type = ReadOp, Operation.Key = ''key-1''\<rparr>,
               \<lparr>Type = ReadOp, Operation.Key = ''key-2''\<rparr>] ! 1) = WriteOp)
        = fgt ([Finite (1 / 2), Finite (1 / 3), Finite (1 / 4)] ! 1) (Finite (1 / 3))"
    by (simp_all add: ReadOp_def WriteOp_def)
  from a0 a1 b stub_Generate stub_rand_in_unit show ?thesis
    by (intro conjI)
qed

section \<open>The write payload\<close>

lemma length_Sprintf_x: "length (Sprintf_x b) = 2 * length b"
  by (induction b) (simp_all add: Sprintf_x_def hex_byte_def)

lemma generateValue_length:
  "0 \<le> n \<Longrightarrow> \<exists>v. generateValue n rnd = Some v \<and> length v = 2 * nat n"
  by (simp add: generateValue_def length_Sprintf_x)

lemma replay_write_payload:
  assumes "replay strat vals calls s = (es, s')" and "WriteEv j k x e \<in> set es"
  shows "x = vals ! j"
  using assms
proof (induction calls arbitrary: s es s')
  case Nil
  then show ?case by simp
next
  case (Cons c calls)
  obtain wid op where c: "c = (wid, op)" by (cases c)
  obtain e1 s1 where a: "answer strat (vals ! wid) wid op s = (e1, s1)"
    by (metis prod.exhaust)
  obtain es1 s2 where r: "replay strat vals calls s1 = (es1, s2)"
    by (metis prod.exhaust)
  from Cons.prems(1) c a r have es: "es = e1 # es1"
    by simp
  from a have "e1 = WriteEv j k x e \<Longrightarrow> x = vals ! j"
    by (auto simp: answer_def split: if_splits prod.splits)
  with Cons.IH [OF r] Cons.prems(2) es show ?case
    by auto
qed

lemma Run_write_payloads:
  assumes "Init (strategy r) s0 = (None, s1)" and "Run r E s0 = Some ((rr, err), w')"
    and "WriteEv j k x e \<in> set (events w')"
  shows "j < nat (concurrency r) \<and> generateValue (valueSizeBytes r) (entropy E j) = Some x
     \<and> length x = 2 * nat (valueSizeBytes r)"
proof -
  from Run_Init_ok [OF assms(1,2)]
  obtain vals s2 where vals: "worker_values (valueSizeBytes r) E (concurrency r) = Some vals"
    and rp: "replay (strategy r) vals (calls_of (events w')) s1 = (events w', s2)"
    and all: "list_all (\<lambda>e. event_worker e < nat (concurrency r)) (events w')"
    by blast
  from all assms(3) have j: "j < nat (concurrency r)"
    by (auto simp: list_all_iff)
  from replay_write_payload [OF rp assms(3)] have "x = vals ! j" .
  with worker_values_Some [OF vals] j
  have x: "generateValue (valueSizeBytes r) (entropy E j) = Some x"
    by simp
  from x have "0 \<le> valueSizeBytes r"
    by (simp add: generateValue_def split: if_splits)
  from generateValue_length [OF this, of "entropy E j"] x j show ?thesis
    by simp
qed

text \<open>
  Claim C7. The payload of a worker is generated once and used for all its writes, but
  it does not have the configured size: with \<open>valueSizeBytes = 1\<close> the worker
  generates one random byte and writes the two characters of its hexadecimal print.
  In the run of the stub strategy with that size, the write of worker 0 carries the
  payload \<open>ab\<close>.
\<close>

theorem payload_is_twice_valueSizeBytes:
  "valueSizeBytes (NewRunner stub_strategy stub_workload 2 1) = 1
   \<and> generateValue 1 (entropy stub_env 0) = Some ''ab''
   \<and> length ''ab'' = 2
   \<and> events (snd (the (Run (NewRunner stub_strategy stub_workload 2 1) stub_env []))) ! 2
       = WriteEv 0 ''a'' ''ab'' None"
  by (simp add: stub_run)
     (simp add: NewRunner_def stub_env_def generateValue_def Sprintf_x_def hex_byte_def
        hex_digit_def)

section \<open>Properties of the final comparison\<close>

lemma p95Index_floor: "p95Index n = Some \<lfloor>(95 / 100 :: rat) * of_nat n\<rfloor>"
  by (simp add: p95Index_def float64_of_int_def mult.commute)

lemma p95Index_in_range:
  assumes "0 < n"
  shows "0 \<le> \<lfloor>(95 / 100 :: rat) * of_nat n\<rfloor> \<and> nat \<lfloor>(95 / 100 :: rat) * of_nat n\<rfloor> < n"
proof -
  have "(95 / 100 :: rat) * of_nat n < of_int (int n)"
    using assms by simp
  then have "\<lfloor>(95 / 100 :: rat) * of_nat n\<rfloor> < int n"
    by (simp only: floor_less_iff)
  moreover have "0 \<le> \<lfloor>(95 / 100 :: rat) * of_nat n\<rfloor>"
    by simp
  ultimately show ?thesis by linarith
qed

text \<open>
  The percentile the comparison computes: the latencies are sorted in ascending order;
  above twenty samples the percentile is the element at the index
  \<open>floor(0.95 * count)\<close>, which is in range; up to twenty samples it is zero. A row
  that is printed carries that percentile.
\<close>

lemma p95Latency_rule:
  "sorted (sort lats) \<and> mset (sort lats) = mset lats
   \<and> (20 < length lats \<longrightarrow>
        nat \<lfloor>(95 / 100 :: rat) * of_nat (length lats)\<rfloor> < length lats
        \<and> p95Latency (sort lats) =
            Some (sort lats ! nat \<lfloor>(95 / 100 :: rat) * of_nat (length lats)\<rfloor>))
   \<and> (length lats \<le> 20 \<longrightarrow> p95Latency (sort lats) = Some 0)"
proof (intro conjI impI)
  show "sorted (sort lats)" by simp
  show "mset (sort lats) = mset lats" by simp
next
  assume big: "20 < length lats"
  then have "0 < length lats" by linarith
  from p95Index_in_range [OF this]
  show "nat \<lfloor>(95 / 100 :: rat) * of_nat (length lats)\<rfloor> < length lats"
    by simp
next
  assume big: "20 < length lats"
  then have "0 < length lats" by linarith
  from p95Index_in_range [OF this] big
  show "p95Latency (sort lats) =
          Some (sort lats ! nat \<lfloor>(95 / 100 :: rat) * of_nat (length lats)\<rfloor>)"
    by (simp add: p95Latency_def p95Index_floor)
next
  assume "length lats \<le> 20"
  then show "p95Latency (sort lats) = Some 0"
    by (simp add: p95Latency_def)
qed

lemma comparison_row_p95:
  assumes "0 < length (Latencies r)"
  shows "map_option snd (comparison_row r) = p95Latency (sort (Latencies r))"
proof -
  from p95Latency_rule [of "Latencies r"]
  obtain p where p: "p95Latency (sort (Latencies r)) = Some p"
    by (cases "20 < length (Latencies r)") auto
  with assms show ?thesis
    by (simp add: comparison_row_def Let_def)
qed

text \<open>
  Claim C9. The comparison sorts the latencies of a result in ascending order. Its
  95th percentile is the element of the sorted sequence at the index
  \<open>floor(0.95 * count)\<close>, which is in range, when there are more than twenty
  latencies, and zero when there are twenty or fewer. The row printed for a result
  with at least one latency carries that percentile.
\<close>

theorem p95_is_element_at_floor_index:
  "sorted (sort (Latencies r)) \<and> mset (sort (Latencies r)) = mset (Latencies r)
   \<and> (20 < length (Latencies r) \<longrightarrow>
        nat \<lfloor>(95 / 100 :: rat) * of_nat (length (Latencies r))\<rfloor> < length (Latencies r)
        \<and> p95Latency (sort (Latencies r)) =
            Some (sort (Latencies r) ! nat \<lfloor>(95 / 100 :: rat) * of_nat (length (Latencies r))\<rfloor>))
   \<and> (length (Latencies r) \<le> 20 \<longrightarrow> p95Latency (sort (Latencies r)) = Some 0)
   \<and> (0 < length (Latencies r) \<longrightarrow>
        map_option snd (comparison_row r) = p95Latency (sort (Latencies r)))"
  using p95Latency_rule [of "Latencies r"] comparison_row_p95 [of r]
  by blast

lemma sort_21:
  "sort [21, 20, 19, 18, 17, 16, 15, 14, 13, 12, 11, 10, 9, 8, 7, 6, 5, 4, 3, 2, 1 :: int]
     = [1, 2, 3, 4, 5, 6, 7, 8, 9, 10, 11, 12, 13, 14, 15, 16, 17, 18, 19, 20, 21]"
  by simp

theorem p95_is_element_at_floor_index_witness:
  "p95Latency (sort [21, 20, 19, 18, 17, 16, 15, 14, 13, 12, 11, 10, 9, 8, 7, 6, 5, 4, 3, 2, 1])
     = Some 20
   \<and> map_option snd (comparison_row (stub_result
        [21, 20, 19, 18, 17, 16, 15, 14, 13, 12, 11, 10, 9, 8, 7, 6, 5, 4, 3, 2, 1])) = Some 20
   \<and> p95Latency (sort [7, 3]) = Some 0
   \<and> map_option snd (comparison_row (stub_result [7, 3])) = Some 0"
proof -
  let ?big = "[21, 20, 19, 18, 17, 16, 15, 14, 13, 12, 11, 10, 9, 8, 7, 6, 5, 4, 3, 2, 1 :: int]"
  have "\<lfloor>(399 / 20 :: rat)\<rfloor> = 19"
    by (rule floor_unique) simp_all
  then have idx: "nat \<lfloor>(95 / 100 :: rat) * of_nat (length ?big)\<rfloor> = 19"
    by simp
  have lat: "Latencies (stub_result ?big) = ?big" "Latencies (stub_result [7, 3]) = [7, 3]"
    by (simp_all add: stub_result_def)
  from p95_is_element_at_floor_index [of "stub_result ?big"]
  have a: "p95Latency (sort ?big) = Some 20
     \<and> map_option snd (comparison_row (stub_result ?big)) = Some 20"
    unfolding lat idx sort_21 by simp
  from p95_is_element_at_floor_index [of "stub_result [7, 3]"]
  have b: "p95Latency (sort [7, 3]) = Some 0
     \<and> map_option snd (comparison_row (stub_result [7, 3])) = Some 0"
    unfolding lat by simp
  from a b show ?thesis by blast
qed

text \<open>
  A result without latencies (a run of an empty workload, or with no worker) gets no
  row: its percentile is computed as zero, and then the average divides by the number
  of latencies, zero, which panics before the row is printed. The run of the stub
  strategy on the empty workload returns such a result.
\<close>

lemma comparison_row_of_no_latency:
  "Latencies (fst (fst (the (Run (NewRunner stub_strategy [] 2 1) stub_env [])))) = []
   \<and> p95Latency (sort []) = Some 0
   \<and> comparison_row (fst (fst (the (Run (NewRunner stub_strategy [] 2 1) stub_env [])))) = None"
  by (simp add: empty_run comparison_row_def p95Latency_def)

end
